theory Spec2Isabelle
  imports Main "HOL-Library.Word"
begin

unbundle bit_operations_syntax

section \<open>The machine: registers, input port, event trace\<close>

type_synonym byte = "8 word"
type_synonym word16 = "16 word"

text \<open>
  The firmware keeps no variables of its own: all state is in the memory-mapped registers of
  the MSP430.  Every register the source touches is a field of \<open>regs\<close>.
\<close>

record regs =
  P2OUT :: byte
  P2DIR :: byte
  P2REN :: byte
  P3OUT :: byte
  P3DIR :: byte
  PM5CTL0 :: word16
  WDTCTL :: word16
  CSCTL0_H :: byte
  CSCTL1 :: word16
  CSCTL2 :: word16
  CSCTL3 :: word16

datatype reg =
  R_P2OUT | R_P2DIR | R_P2REN | R_P3OUT | R_P3DIR | R_PM5CTL0
  | R_WDTCTL | R_CSCTL0_H | R_CSCTL1 | R_CSCTL2 | R_CSCTL3

text \<open>
  What the firmware does that is visible from outside: a store to a register, a load of the
  input register \<open>P2IN\<close> (with the value read), and a busy wait of \<open>__delay_cycles(n)\<close>.
\<close>

datatype event = Write reg | Read_P2IN byte | Delay_cycles nat

text \<open>
  The machine state: the register file, the values the volatile input register \<open>P2IN\<close>
  shows at its successive loads (the \<open>k\<close>-th load returns \<open>P2IN s k\<close>; this is how the slave
  and the pull-ups act on the program), the number of loads done so far, and the trace: every
  event in program order, each paired with the register file right after it.
\<close>

record mcu = regs +
  P2IN :: "nat \<Rightarrow> byte"
  nread :: nat
  trace :: "(event \<times> regs) list"

definition snapshot :: "mcu \<Rightarrow> regs" where
  "snapshot s = \<lparr>P2OUT = P2OUT s, P2DIR = P2DIR s, P2REN = P2REN s, P3OUT = P3OUT s,
     P3DIR = P3DIR s, PM5CTL0 = PM5CTL0 s, WDTCTL = WDTCTL s, CSCTL0_H = CSCTL0_H s,
     CSCTL1 = CSCTL1 s, CSCTL2 = CSCTL2 s, CSCTL3 = CSCTL3 s\<rparr>"

definition log :: "event \<Rightarrow> mcu \<Rightarrow> mcu" where
  "log e s = s\<lparr>trace := trace s @ [(e, snapshot s)]\<rparr>"

text \<open>One definition per register store of the source: the store, then its trace entry.\<close>

definition set_P2OUT :: "byte \<Rightarrow> mcu \<Rightarrow> mcu" where
  "set_P2OUT v s = log (Write R_P2OUT) (s\<lparr>P2OUT := v\<rparr>)"

definition set_P2DIR :: "byte \<Rightarrow> mcu \<Rightarrow> mcu" where
  "set_P2DIR v s = log (Write R_P2DIR) (s\<lparr>P2DIR := v\<rparr>)"

definition set_P2REN :: "byte \<Rightarrow> mcu \<Rightarrow> mcu" where
  "set_P2REN v s = log (Write R_P2REN) (s\<lparr>P2REN := v\<rparr>)"

definition set_P3OUT :: "byte \<Rightarrow> mcu \<Rightarrow> mcu" where
  "set_P3OUT v s = log (Write R_P3OUT) (s\<lparr>P3OUT := v\<rparr>)"

definition set_P3DIR :: "byte \<Rightarrow> mcu \<Rightarrow> mcu" where
  "set_P3DIR v s = log (Write R_P3DIR) (s\<lparr>P3DIR := v\<rparr>)"

definition set_PM5CTL0 :: "word16 \<Rightarrow> mcu \<Rightarrow> mcu" where
  "set_PM5CTL0 v s = log (Write R_PM5CTL0) (s\<lparr>PM5CTL0 := v\<rparr>)"

definition set_WDTCTL :: "word16 \<Rightarrow> mcu \<Rightarrow> mcu" where
  "set_WDTCTL v s = log (Write R_WDTCTL) (s\<lparr>WDTCTL := v\<rparr>)"

definition set_CSCTL0_H :: "byte \<Rightarrow> mcu \<Rightarrow> mcu" where
  "set_CSCTL0_H v s = log (Write R_CSCTL0_H) (s\<lparr>CSCTL0_H := v\<rparr>)"

definition set_CSCTL1 :: "word16 \<Rightarrow> mcu \<Rightarrow> mcu" where
  "set_CSCTL1 v s = log (Write R_CSCTL1) (s\<lparr>CSCTL1 := v\<rparr>)"

definition set_CSCTL2 :: "word16 \<Rightarrow> mcu \<Rightarrow> mcu" where
  "set_CSCTL2 v s = log (Write R_CSCTL2) (s\<lparr>CSCTL2 := v\<rparr>)"

definition set_CSCTL3 :: "word16 \<Rightarrow> mcu \<Rightarrow> mcu" where
  "set_CSCTL3 v s = log (Write R_CSCTL3) (s\<lparr>CSCTL3 := v\<rparr>)"

text \<open>A load of \<open>P2IN\<close>: the next value of the input stream, recorded in the trace.\<close>

definition read_P2IN :: "mcu \<Rightarrow> byte \<times> mcu" where
  "read_P2IN s = (P2IN s (nread s), log (Read_P2IN (P2IN s (nread s))) (s\<lparr>nread := Suc (nread s)\<rparr>))"

text \<open>The compiler intrinsic \<open>__delay_cycles(n)\<close> changes nothing but the time.\<close>

definition delay_cycles :: "nat \<Rightarrow> mcu \<Rightarrow> mcu" where
  "delay_cycles n s = log (Delay_cycles n) s"

section \<open>Pin mapping and constants\<close>

text \<open>
  Modelled from the spec: \<open>msp430.h\<close>, which declares \<open>BIT0\<close> .. \<open>BIT4\<close>, is not part of the
  repository.  The pin comments of the source (\<open>BIT1 // P2.1\<close>) and the pin table of the
  specification fix \<open>BITn\<close> as the mask of bit \<open>n\<close>.
\<close>

definition BIT0 :: byte where "BIT0 = 0x01"
definition BIT1 :: byte where "BIT1 = 0x02"
definition BIT2 :: byte where "BIT2 = 0x04"
definition BIT4 :: byte where "BIT4 = 0x10"

definition OLED_SCL_BIT :: byte where "OLED_SCL_BIT = BIT1"
definition OLED_SDA_BIT :: byte where "OLED_SDA_BIT = BIT2"
definition OLED_RES_BIT :: byte where "OLED_RES_BIT = BIT0"

definition SSD1315_ADDR_WRITE :: byte where "SSD1315_ADDR_WRITE = 0x78"
definition OLED_CTRL_CMD :: byte where "OLED_CTRL_CMD = 0x00"
definition OLED_CTRL_DATA :: byte where "OLED_CTRL_DATA = 0x40"

text \<open>C's logical negation \<open>!x\<close> on an integer.\<close>

definition lnot :: "byte \<Rightarrow> byte" where
  "lnot x = (if x = 0 then 1 else 0)"

section \<open>Delay helpers\<close>

text \<open>\<open>while (nBlocks--) __delay_cycles(1000);\<close> on a \<open>uint16_t\<close> counter.\<close>

function delay_cycles_const :: "word16 \<Rightarrow> mcu \<Rightarrow> mcu" where
  "delay_cycles_const nBlocks s =
     (if nBlocks \<noteq> 0 then delay_cycles_const (nBlocks - 1) (delay_cycles 1000 s) else s)"
  by pat_completeness auto
termination
  by (relation "measure (\<lambda>(n, s). unat n)") (simp_all add: unat_minus_one unat_gt_0)

declare delay_cycles_const.simps [simp del]

function delay_ms :: "word16 \<Rightarrow> mcu \<Rightarrow> mcu" where
  "delay_ms ms s = (if ms \<noteq> 0 then delay_ms (ms - 1) (delay_cycles_const 5 s) else s)"
  by pat_completeness auto
termination
  by (relation "measure (\<lambda>(n, s). unat n)") (simp_all add: unat_minus_one unat_gt_0)

declare delay_ms.simps [simp del]

function delay_s :: "word16 \<Rightarrow> mcu \<Rightarrow> mcu" where
  "delay_s sec s = (if sec \<noteq> 0 then delay_s (sec - 1) (delay_ms 1000 s) else s)"
  by pat_completeness auto
termination
  by (relation "measure (\<lambda>(n, s). unat n)") (simp_all add: unat_minus_one unat_gt_0)

declare delay_s.simps [simp del]

definition delay_short :: "mcu \<Rightarrow> mcu" where
  "delay_short s = delay_cycles 100 s"

section \<open>Open-drain helpers\<close>

definition SCL_low :: "mcu \<Rightarrow> mcu" where
  "SCL_low s =
     (let s = set_P2OUT (P2OUT s AND NOT OLED_SCL_BIT) s;
          s = set_P2DIR (P2DIR s OR OLED_SCL_BIT) s
      in s)"

definition SCL_release :: "mcu \<Rightarrow> mcu" where
  "SCL_release s = set_P2DIR (P2DIR s AND NOT OLED_SCL_BIT) s"

definition SDA_low :: "mcu \<Rightarrow> mcu" where
  "SDA_low s =
     (let s = set_P2OUT (P2OUT s AND NOT OLED_SDA_BIT) s;
          s = set_P2DIR (P2DIR s OR OLED_SDA_BIT) s
      in s)"

definition SDA_release :: "mcu \<Rightarrow> mcu" where
  "SDA_release s = set_P2DIR (P2DIR s AND NOT OLED_SDA_BIT) s"

definition SDA_read :: "mcu \<Rightarrow> byte \<times> mcu" where
  "SDA_read s =
     (let (v, s) = read_P2IN s
      in (if v AND OLED_SDA_BIT \<noteq> 0 then 1 else 0, s))"

section \<open>I2C bit-bang\<close>

definition i2c_idle :: "mcu \<Rightarrow> mcu" where
  "i2c_idle s =
     (let s = SDA_release s;
          s = SCL_release s;
          s = delay_short s
      in s)"

definition i2c_start :: "mcu \<Rightarrow> mcu" where
  "i2c_start s =
     (let s = SDA_release s;
          s = SCL_release s;
          s = delay_short s;
          s = SDA_low s;
          s = delay_short s;
          s = SCL_low s;
          s = delay_short s
      in s)"

definition i2c_stop :: "mcu \<Rightarrow> mcu" where
  "i2c_stop s =
     (let s = SDA_low s;
          s = delay_short s;
          s = SCL_release s;
          s = delay_short s;
          s = SDA_release s;
          s = delay_short s
      in s)"

definition i2c_write_bit :: "byte \<Rightarrow> mcu \<Rightarrow> mcu" where
  "i2c_write_bit b s =
     (let s = (if b \<noteq> 0 then SDA_release s else SDA_low s);
          s = delay_short s;
          s = SCL_release s;
          s = delay_short s;
          s = SCL_low s;
          s = delay_short s
      in s)"

definition i2c_read_ack :: "mcu \<Rightarrow> byte \<times> mcu" where
  "i2c_read_ack s =
     (let s = SDA_release s;
          s = delay_short s;
          s = SCL_release s;
          s = delay_short s;
          (v, s) = SDA_read s;
          ack = of_bool (v = 0);
          s = SCL_low s;
          s = delay_short s
      in (ack, s))"

text \<open>
  The loop \<open>for (i = 0; i < 8; i++) { i2c_write_bit((b & 0x80) != 0); b <<= 1; }\<close>, entered
  with the loop counter \<open>i\<close> and the current \<open>b\<close>; both are \<open>uint8_t\<close>.  A comparison of C
  has the value 1 or 0: \<open>of_bool\<close>.
\<close>

function i2c_write_byte_loop :: "byte \<Rightarrow> byte \<Rightarrow> mcu \<Rightarrow> mcu" where
  "i2c_write_byte_loop i b s =
     (if i < 8
      then i2c_write_byte_loop (i + 1) (push_bit 1 b)
             (i2c_write_bit (of_bool (b AND 0x80 \<noteq> 0)) s)
      else s)"
  by pat_completeness auto
termination
proof (relation "measure (\<lambda>(i, b, s). 8 - unat i)")
  show "wf (measure (\<lambda>(i::byte, b::byte, s::mcu). 8 - unat i))"
    by simp
next
  fix i b :: byte and s :: mcu
  assume "i < 8"
  then have less: "unat i < 8"
    by (simp add: word_less_nat_alt)
  then have "unat (i + 1) = unat i + 1"
    by (simp add: unat_word_ariths)
  with less show "((i + 1, push_bit 1 b, i2c_write_bit (of_bool (b AND 0x80 \<noteq> 0)) s), (i, b, s))
      \<in> measure (\<lambda>(i, b, s). 8 - unat i)"
    by simp
qed

declare i2c_write_byte_loop.simps [simp del]

definition i2c_write_byte :: "byte \<Rightarrow> mcu \<Rightarrow> byte \<times> mcu" where
  "i2c_write_byte b s = i2c_read_ack (i2c_write_byte_loop 0 b s)"

section \<open>OLED primitives\<close>

text \<open>
  The constants and the one conditional declaration that the source takes from \<open>msp430.h\<close>,
  which is not part of the repository, are parameters of the model.
\<close>

record header =
  PM5CTL0_defined :: bool
  LOCKLPM5 :: word16
  WDTPW :: word16
  WDTHOLD :: word16
  CSKEY_H :: byte
  DCOFSEL_0 :: word16
  SELA__VLOCLK :: word16
  SELS__DCOCLK :: word16
  SELM__DCOCLK :: word16
  DIVA__1 :: word16
  DIVS__1 :: word16
  DIVM__1 :: word16

definition USE_INTERNAL_PULLUPS :: int where "USE_INTERNAL_PULLUPS = 0"
definition USE_CHARGE_PUMP :: int where "USE_CHARGE_PUMP = 0"

definition oled_gpio_init :: "header \<Rightarrow> mcu \<Rightarrow> mcu" where
  "oled_gpio_init h s =
     (let s = (if PM5CTL0_defined h then set_PM5CTL0 (PM5CTL0 s AND NOT (LOCKLPM5 h)) s else s);
          s = set_P2OUT (P2OUT s AND NOT (OLED_SCL_BIT OR OLED_SDA_BIT OR OLED_RES_BIT)) s;
          s = set_P2DIR (P2DIR s OR OLED_RES_BIT) s;
          s = (if USE_INTERNAL_PULLUPS \<noteq> 0
               then (let s = set_P2REN (P2REN s OR (OLED_SCL_BIT OR OLED_SDA_BIT)) s;
                         s = set_P2OUT (P2OUT s OR (OLED_SCL_BIT OR OLED_SDA_BIT)) s
                     in s)
               else set_P2REN (P2REN s AND NOT (OLED_SCL_BIT OR OLED_SDA_BIT)) s);
          s = set_P2OUT (P2OUT s OR OLED_RES_BIT) s;
          s = i2c_idle s
      in s)"

definition oled_reset_pulse :: "mcu \<Rightarrow> mcu" where
  "oled_reset_pulse s =
     (let s = set_P2OUT (P2OUT s AND NOT OLED_RES_BIT) s;
          s = delay_ms 50 s;
          s = set_P2OUT (P2OUT s OR OLED_RES_BIT) s;
          s = delay_ms 50 s
      in s)"

definition oled_write :: "byte \<Rightarrow> byte \<Rightarrow> mcu \<Rightarrow> byte \<times> mcu" where
  "oled_write control data s =
     (let s = i2c_start s;
          (ok, s) = i2c_write_byte SSD1315_ADDR_WRITE s
      in if ok = 0 then (0, i2c_stop s)
         else
           let (ok, s) = i2c_write_byte control s
           in if ok = 0 then (0, i2c_stop s)
              else
                let (ok, s) = i2c_write_byte data s;
                    s = (if ok \<noteq> 0 then set_P3OUT (P3OUT s OR BIT4) s
                         else set_P3OUT (P3OUT s AND lnot BIT4) s);
                    s = i2c_stop s
                in (ok, s))"

definition oled_cmd :: "byte \<Rightarrow> mcu \<Rightarrow> byte \<times> mcu" where
  "oled_cmd cmd s = oled_write OLED_CTRL_CMD cmd s"

definition oled_init_minimal :: "mcu \<Rightarrow> mcu" where
  "oled_init_minimal s =
     (let s = (if USE_CHARGE_PUMP \<noteq> 0
               then (let s = snd (oled_cmd 0x8D s);
                         s = snd (oled_cmd 0x14 s);
                         s = delay_ms 100 s
                     in s)
               else delay_s 8 s);
          s = snd (oled_cmd 0xAF s);
          s = delay_ms 150 s
      in s)"

section \<open>Clock setup and entry point\<close>

definition clock_init_dco_default :: "header \<Rightarrow> mcu \<Rightarrow> mcu" where
  "clock_init_dco_default h s =
     (let s = set_CSCTL0_H (CSKEY_H h) s;
          s = set_CSCTL1 (DCOFSEL_0 h) s;
          s = set_CSCTL2 (SELA__VLOCLK h OR SELS__DCOCLK h OR SELM__DCOCLK h) s;
          s = set_CSCTL3 (DIVA__1 h OR DIVS__1 h OR DIVM__1 h) s;
          s = set_CSCTL0_H 0 s
      in s)"

text \<open>
  The body of \<open>main\<close> in its three parts: the hardware setup (watchdog, LED pin, clock,
  GPIO), the bring-up of the panel, and the final loop.
\<close>

definition main_setup :: "header \<Rightarrow> mcu \<Rightarrow> mcu" where
  "main_setup h s =
     (let s = set_WDTCTL (WDTPW h OR WDTHOLD h) s;
          s = set_P3DIR (P3DIR s OR BIT4) s;
          s = set_P3OUT (P3OUT s AND lnot BIT4) s;
          s = clock_init_dco_default h s;
          s = oled_gpio_init h s
      in s)"

definition main_bringup :: "mcu \<Rightarrow> mcu" where
  "main_bringup s =
     (let s = delay_ms 200 s;
          s = oled_reset_pulse s;
          s = oled_init_minimal s;
          s = snd (oled_cmd 0xA5 s)
      in s)"

text \<open>
  The final \<open>while (1) { }\<close>, run for at most \<open>fuel\<close> iterations of its (empty) body.  The
  result is the value \<open>main\<close> returns, \<open>None\<close> while it has not returned, and the machine state
  reached.
\<close>

fun idle_loop :: "nat \<Rightarrow> mcu \<Rightarrow> int option \<times> mcu" where
  "idle_loop 0 s = (None, s)"
| "idle_loop (Suc fuel) s = (if (1::int) \<noteq> 0 then idle_loop fuel s else (Some 0, s))"

definition main :: "header \<Rightarrow> nat \<Rightarrow> mcu \<Rightarrow> int option \<times> mcu" where
  "main h fuel s = idle_loop fuel (main_bringup (main_setup h s))"

section \<open>Observing the pins\<close>

text \<open>
  A port pin whose direction bit is 0 is an input (high impedance): the line is released and
  the external pull-up holds it high.  A pin whose direction bit is 1 drives the line to the
  value of its output bit.
\<close>

definition released :: "byte \<Rightarrow> 'a regs_scheme \<Rightarrow> bool" where
  "released m r = (P2DIR r AND m = 0)"

definition driven_low :: "byte \<Rightarrow> 'a regs_scheme \<Rightarrow> bool" where
  "driven_low m r = (P2DIR r AND m \<noteq> 0 \<and> P2OUT r AND m = 0)"

definition driven_high :: "byte \<Rightarrow> 'a regs_scheme \<Rightarrow> bool" where
  "driven_high m r = (P2DIR r AND m \<noteq> 0 \<and> P2OUT r AND m \<noteq> 0)"

text \<open>The level the master puts on a line: low when driven low, high otherwise.\<close>

definition level :: "byte \<Rightarrow> 'a regs_scheme \<Rightarrow> bool" where
  "level m r = (\<not> driven_low m r)"

definition open_drain :: "'a regs_scheme \<Rightarrow> bool" where
  "open_drain r = (\<not> driven_high OLED_SCL_BIT r \<and> \<not> driven_high OLED_SDA_BIT r)"

definition bus_released :: "'a regs_scheme \<Rightarrow> bool" where
  "bus_released r = (released OLED_SCL_BIT r \<and> released OLED_SDA_BIT r)"

text \<open>
  \<open>bus_only a r\<close>: the register file \<open>r\<close> differs from \<open>a\<close> at most in the SCL and SDA bits of
  \<open>P2OUT\<close> and \<open>P2DIR\<close>.
\<close>

definition bus_only :: "'a regs_scheme \<Rightarrow> 'b regs_scheme \<Rightarrow> bool" where
  "bus_only a r =
     (P2OUT r AND NOT (OLED_SCL_BIT OR OLED_SDA_BIT) = P2OUT a AND NOT (OLED_SCL_BIT OR OLED_SDA_BIT)
      \<and> P2DIR r AND NOT (OLED_SCL_BIT OR OLED_SDA_BIT) = P2DIR a AND NOT (OLED_SCL_BIT OR OLED_SDA_BIT)
      \<and> P2REN r = P2REN a \<and> P3OUT r = P3OUT a \<and> P3DIR r = P3DIR a \<and> PM5CTL0 r = PM5CTL0 a
      \<and> WDTCTL r = WDTCTL a \<and> CSCTL0_H r = CSCTL0_H a \<and> CSCTL1 r = CSCTL1 a
      \<and> CSCTL2 r = CSCTL2 a \<and> CSCTL3 r = CSCTL3 a)"

text \<open>The trace entries added between a state and a later one.\<close>

definition emitted :: "mcu \<Rightarrow> mcu \<Rightarrow> (event \<times> regs) list" where
  "emitted s s' = drop (length (trace s)) (trace s')"

text \<open>The cycles spent in \<open>__delay_cycles\<close> in a stretch of the trace.\<close>

fun cycles :: "(event \<times> regs) list \<Rightarrow> nat" where
  "cycles [] = 0"
| "cycles ((Delay_cycles n, r) # es) = n + cycles es"
| "cycles (e # es) = cycles es"

text \<open>
  The clock: \<open>clock_init_dco_default\<close> selects \<open>DCOFSEL_0\<close>, which the source gives as about
  5.33 MHz, \<open>5330 cycles/ms approximately\<close> (comment of the delay helpers).
\<close>

definition DCO_CYCLES_PER_MS :: nat where
  "DCO_CYCLES_PER_MS = 5330"

section \<open>Observing the bus\<close>

text \<open>
  What a probe on the two lines sees of a trace entry: the levels the master puts on SCL and
  SDA after a register store, the SDA bit of a load of \<open>P2IN\<close>, the length of a wait.
\<close>

datatype wire = Level bool bool | Sampled bool | Gap nat

fun wire_of :: "event \<times> regs \<Rightarrow> wire" where
  "wire_of (Write x, r) = Level (level OLED_SCL_BIT r) (level OLED_SDA_BIT r)"
| "wire_of (Read_P2IN v, r) = Sampled (v AND OLED_SDA_BIT \<noteq> 0)"
| "wire_of (Delay_cycles n, r) = Gap n"

definition bus :: "mcu \<Rightarrow> mcu \<Rightarrow> wire list" where
  "bus s s' = map wire_of (emitted s s')"

text \<open>The edges on the two lines, and the waits between them, from given starting levels.\<close>

datatype edge = SCL_falls | SCL_rises | SDA_falls | SDA_rises | Wait nat

fun edges :: "bool \<Rightarrow> bool \<Rightarrow> wire list \<Rightarrow> edge list" where
  "edges c d [] = []"
| "edges c d (Level c' d' # ws) =
     (if c \<noteq> c' then [if c' then SCL_rises else SCL_falls] else [])
     @ (if d \<noteq> d' then [if d' then SDA_rises else SDA_falls] else [])
     @ edges c' d' ws"
| "edges c d (Sampled v # ws) = edges c d ws"
| "edges c d (Gap n # ws) = Wait n # edges c d ws"

text \<open>
  An I2C protocol decoder.  SDA falling while SCL is high is a START, SDA rising while SCL is
  high is a STOP.  Inside a transfer every clock pulse carries one bit: the level of SDA at
  the rising edge, taken over when the clock falls again.  Eight bits, most significant
  first, make a byte; the ninth pulse is the acknowledge slot, in which the receiver answers
  by holding SDA low: the byte counts as acknowledged when the master samples SDA low during
  that pulse.  Anything else (a clock pulse outside a transfer, a START or STOP inside a
  byte) is reported as a \<open>GLITCH\<close>.
\<close>

datatype symbol = START | STOP | BYTE byte bool | GLITCH

record decoder =
  scl :: bool
  sda :: bool
  busy :: bool
  pulse :: bool
  latch :: bool
  nbits :: nat
  sr :: byte
  ack :: bool
  out :: "symbol list"

definition idle_decoder :: decoder where
  "idle_decoder = \<lparr>scl = True, sda = True, busy = False, pulse = False, latch = False,
     nbits = 0, sr = 0, ack = False, out = []\<rparr>"

fun dstep :: "decoder \<Rightarrow> wire \<Rightarrow> decoder" where
  "dstep st (Gap n) = st"
| "dstep st (Sampled v) =
     (if busy st \<and> pulse st \<and> nbits st = 8 then st\<lparr>ack := \<not> v\<rparr> else st)"
| "dstep st (Level c d) =
     (if scl st \<and> c \<and> sda st \<noteq> d then
        st\<lparr>sda := d, busy := \<not> d, pulse := False, nbits := 0, sr := 0, ack := False,
           out := out st @ (if busy st \<and> nbits st \<noteq> 0 then [GLITCH] else [])
                  @ [if d then STOP else START]\<rparr>
      else if \<not> scl st \<and> c then
        (if busy st then st\<lparr>scl := c, sda := d, pulse := True, latch := d, ack := False\<rparr>
         else st\<lparr>scl := c, sda := d, out := out st @ [GLITCH]\<rparr>)
      else if scl st \<and> \<not> c then
        (if busy st \<and> pulse st then
           (if nbits st < 8 then
              st\<lparr>scl := c, sda := d, pulse := False, nbits := Suc (nbits st),
                 sr := push_bit 1 (sr st) OR of_bool (latch st)\<rparr>
            else
              st\<lparr>scl := c, sda := d, pulse := False, nbits := 0, sr := 0, ack := False,
                 out := out st @ [BYTE (sr st) (ack st)]\<rparr>)
         else st\<lparr>scl := c, sda := d\<rparr>)
      else st\<lparr>scl := c, sda := d\<rparr>)"

definition decode :: "decoder \<Rightarrow> wire list \<Rightarrow> decoder" where
  "decode st ws = foldl dstep st ws"

text \<open>
  The decoder in step with the machine: it has seen the levels the registers now give.
\<close>

definition in_step :: "decoder \<Rightarrow> 'a regs_scheme \<Rightarrow> bool" where
  "in_step st r = (scl st = level OLED_SCL_BIT r \<and> sda st = level OLED_SDA_BIT r)"

text \<open>
  The transfer of the specification: START, the address byte 0x78, then, as long as the bytes
  are acknowledged, the control byte and the payload byte, then STOP.  \<open>a1\<close>, \<open>a2\<close> and \<open>a3\<close>
  say whether the slave acknowledges the first, second and third byte.
\<close>

definition transfer :: "byte \<Rightarrow> byte \<Rightarrow> bool \<Rightarrow> bool \<Rightarrow> bool \<Rightarrow> symbol list" where
  "transfer control payload a1 a2 a3 =
     [START, BYTE 0x78 a1] @
     (if \<not> a1 then [STOP]
      else [BYTE control a2] @ (if \<not> a2 then [STOP] else [BYTE payload a3, STOP]))"

text \<open>Whether the \<open>k\<close>-th load of \<open>P2IN\<close> finds SDA low, that is, sees an acknowledge.\<close>

definition acked :: "mcu \<Rightarrow> nat \<Rightarrow> bool" where
  "acked s k = (P2IN s k AND OLED_SDA_BIT = 0)"

section \<open>Auxiliary notions for the proofs\<close>

text \<open>The trace of \<open>s'\<close> continues the trace of \<open>s\<close>.\<close>

definition extends :: "mcu \<Rightarrow> mcu \<Rightarrow> bool" where
  "extends s s' = (take (length (trace s)) (trace s') = trace s)"

text \<open>
  The events of the I2C layer: stores to \<open>P2OUT\<close> and \<open>P2DIR\<close>, loads of \<open>P2IN\<close>, and the
  short delay.
\<close>

definition bus_event :: "event \<Rightarrow> bool" where
  "bus_event e = (case e of Write x \<Rightarrow> x = R_P2OUT \<or> x = R_P2DIR | Read_P2IN v \<Rightarrow> True
                    | Delay_cycles n \<Rightarrow> n = 100)"

text \<open>
  A step of the I2C layer, from register file \<open>a\<close> to \<open>r\<close>: only the SCL and SDA bits of
  port 2 change, and neither line becomes driven high.
\<close>

definition bus_step :: "regs \<Rightarrow> regs \<Rightarrow> bool" where
  "bus_step a r = (bus_only a r \<and> (open_drain a \<longrightarrow> open_drain r))"

text \<open>
  \<open>keeps E R s s'\<close>: running from \<open>s\<close> to \<open>s'\<close> only adds to the trace, leaves the input stream
  alone, adds only events in \<open>E\<close>, and every register file on the way, and the final one, is
  related by \<open>R\<close> to the one at the start.
\<close>

definition keeps :: "(event \<Rightarrow> bool) \<Rightarrow> (regs \<Rightarrow> regs \<Rightarrow> bool) \<Rightarrow> mcu \<Rightarrow> mcu \<Rightarrow> bool" where
  "keeps E R s s' =
     (extends s s' \<and> P2IN s' = P2IN s \<and> R (snapshot s) (snapshot s')
      \<and> list_all (\<lambda>(e, r). E e \<and> R (snapshot s) r) (emitted s s'))"

text \<open>
  The decoder inside a transfer, between two clock pulses, in step with the machine: SCL is
  held low, \<open>k\<close> bits of the current byte have been taken over into \<open>w\<close>, and \<open>syms\<close> has been
  decoded so far.
\<close>

definition mid_byte :: "decoder \<Rightarrow> mcu \<Rightarrow> nat \<Rightarrow> byte \<Rightarrow> symbol list \<Rightarrow> bool" where
  "mid_byte st s k w syms =
     (driven_low OLED_SCL_BIT s \<and> in_step st s \<and> busy st \<and> \<not> pulse st
      \<and> nbits st = k \<and> sr st = w \<and> out st = syms)"

text \<open>Writing the bits of \<open>b\<close> at the positions \<open>ks\<close>, in this order.\<close>

definition write_bits :: "byte \<Rightarrow> nat list \<Rightarrow> mcu \<Rightarrow> mcu" where
  "write_bits b ks s = foldl (\<lambda>s k. i2c_write_bit (of_bool (bit b k)) s) s ks"

text \<open>\<open>k\<close> blocks of \<open>__delay_cycles(1000)\<close>.\<close>

definition wait :: "nat \<Rightarrow> mcu \<Rightarrow> mcu" where
  "wait k s = s\<lparr>trace := trace s @ replicate k (Delay_cycles 1000, snapshot s)\<rparr>"

text \<open>
  The events of the display driver: those of the I2C layer, the store to the LED port, and
  the long delays.  A step of the display driver leaves every register alone except the
  SCL and SDA bits of port 2 and the LED port \<open>P3OUT\<close>, and does not drive a line high.
\<close>

definition oled_event :: "event \<Rightarrow> bool" where
  "oled_event e = (bus_event e \<or> e = Write R_P3OUT \<or> e = Delay_cycles 1000)"

definition oled_step :: "regs \<Rightarrow> regs \<Rightarrow> bool" where
  "oled_step a r = (bus_only (a\<lparr>P3OUT := P3OUT r\<rparr>) r \<and> (open_drain a \<longrightarrow> open_drain r))"

definition od_step :: "regs \<Rightarrow> regs \<Rightarrow> bool" where
  "od_step a r = (open_drain a \<longrightarrow> open_drain r)"

definition dir_step :: "regs \<Rightarrow> regs \<Rightarrow> bool" where
  "dir_step a r = (P2DIR r = P2DIR a \<and> (open_drain a \<longrightarrow> open_drain r))"

definition any_event :: "event \<Rightarrow> bool" where
  "any_event e = True"

text \<open>
  A machine to run the firmware on: every register 0 (all pins of port 2 inputs), nothing
  read yet, an empty trace, and a slave that holds SDA low at every load of \<open>P2IN\<close>, that
  is, acknowledges every byte.  And a header: the values of a usual \<open>msp430.h\<close>.
\<close>

definition idle_state :: mcu where
  "idle_state = \<lparr>P2OUT = 0, P2DIR = 0, P2REN = 0, P3OUT = 0, P3DIR = 0, PM5CTL0 = 0,
     WDTCTL = 0, CSCTL0_H = 0, CSCTL1 = 0, CSCTL2 = 0, CSCTL3 = 0,
     P2IN = (\<lambda>k. 0), nread = 0, trace = []\<rparr>"

definition example_header :: header where
  "example_header = \<lparr>PM5CTL0_defined = True, LOCKLPM5 = 0x0001, WDTPW = 0x5A00, WDTHOLD = 0x0080,
     CSKEY_H = 0xA5, DCOFSEL_0 = 0x0000, SELA__VLOCLK = 0x0100, SELS__DCOCLK = 0x0030,
     SELM__DCOCLK = 0x0003, DIVA__1 = 0x0000, DIVS__1 = 0x0000, DIVM__1 = 0x0000\<rparr>"

section \<open>Basic lemmas\<close>

subsection \<open>Bits of the pin masks\<close>

lemma and_BIT0: "(x AND BIT0 = 0) = (\<not> bit x 0)"
  using and_exp_eq_0_iff_not_bit [of x 0] by (simp add: BIT0_def)

lemma and_BIT1: "(x AND BIT1 = 0) = (\<not> bit x 1)"
  using and_exp_eq_0_iff_not_bit [of x 1] by (simp add: BIT1_def)

lemma and_BIT2: "(x AND BIT2 = 0) = (\<not> bit x 2)"
  using and_exp_eq_0_iff_not_bit [of x 2] by (simp add: BIT2_def)

lemma and_BIT4: "(x AND BIT4 = 0) = (\<not> bit x 4)"
  using and_exp_eq_0_iff_not_bit [of x 4] by (simp add: BIT4_def)

lemma bit_BIT0: "bit BIT0 n = (n = 0)"
  by (auto simp add: BIT0_def bit_simps)

lemma bit_BIT1: "bit BIT1 n = (n = 1)"
  using bit_exp_iff [where ?'a = byte, of 1 n] by (auto simp add: BIT1_def)

lemma bit_BIT2: "bit BIT2 n = (n = 2)"
  using bit_exp_iff [where ?'a = byte, of 2 n] by (auto simp add: BIT2_def)

lemma bit_BIT4: "bit BIT4 n = (n = 4)"
  using bit_exp_iff [where ?'a = byte, of 4 n] by (auto simp add: BIT4_def)

lemma BIT_nonzero: "BIT0 \<noteq> 0" "BIT1 \<noteq> 0" "BIT2 \<noteq> 0" "BIT4 \<noteq> 0"
  by (simp_all add: BIT0_def BIT1_def BIT2_def BIT4_def)

lemmas pin_defs = OLED_SCL_BIT_def OLED_SDA_BIT_def OLED_RES_BIT_def

lemmas bit_BIT = bit_BIT0 bit_BIT1 bit_BIT2 bit_BIT4 and_BIT0 and_BIT1 and_BIT2 and_BIT4
  bit_and_iff bit_or_iff bit_not_iff BIT_nonzero

lemma bus_mask_eq_iff:
  "(x AND NOT (BIT1 OR BIT2) = y AND NOT (BIT1 OR BIT2))
     = (\<forall>n<8. n \<noteq> 1 \<and> n \<noteq> 2 \<longrightarrow> bit x n = bit y n)"
  unfolding bit_eq_iff [where ?'a = byte]
  by (auto simp add: bit_BIT)

lemmas store_defs = set_P2OUT_def set_P2DIR_def set_P2REN_def set_P3OUT_def set_P3DIR_def
  set_PM5CTL0_def set_WDTCTL_def set_CSCTL0_H_def set_CSCTL1_def set_CSCTL2_def set_CSCTL3_def
  read_P2IN_def delay_cycles_def delay_short_def log_def snapshot_def

lemmas line_defs = SCL_low_def SCL_release_def SDA_low_def SDA_release_def SDA_read_def

lemmas obs_defs = released_def driven_low_def driven_high_def level_def open_drain_def
  bus_released_def

subsection \<open>Trace bookkeeping\<close>

lemma extends_refl: "extends s s"
  by (simp add: extends_def)

lemma extends_append: "trace s' = trace s @ evs \<Longrightarrow> extends s s'"
  by (simp add: extends_def)

lemma emitted_append: "trace s' = trace s @ evs \<Longrightarrow> emitted s s' = evs"
  by (simp add: emitted_def)

lemma trace_emitted: "extends s s' \<Longrightarrow> trace s' = trace s @ emitted s s'"
  unfolding extends_def emitted_def by (metis append_take_drop_id)

lemma extends_trans: "extends s s' \<Longrightarrow> extends s' s'' \<Longrightarrow> extends s s''"
  by (metis append.assoc extends_append trace_emitted)

lemma emitted_trans:
  "extends s s' \<Longrightarrow> extends s' s'' \<Longrightarrow> emitted s s'' = emitted s s' @ emitted s' s''"
  by (metis append.assoc emitted_append trace_emitted)

lemma emitted_refl: "emitted s s = []"
  by (simp add: emitted_def)

lemma bus_trans: "extends s s' \<Longrightarrow> extends s' s'' \<Longrightarrow> bus s s'' = bus s s' @ bus s' s''"
  by (simp add: bus_def emitted_trans)

lemma keeps_refl: "R (snapshot s) (snapshot s) \<Longrightarrow> keeps E R s s"
  by (simp add: keeps_def extends_refl emitted_refl)

lemma keeps_trans:
  assumes tr: "\<And>a b c. R a b \<Longrightarrow> R b c \<Longrightarrow> R a c"
    and 1: "keeps E R s s'" and 2: "keeps E R s' s''"
  shows "keeps E R s s''"
proof -
  from 1 2 have e: "extends s s'" "extends s' s''"
    by (simp_all add: keeps_def)
  from 1 have r: "R (snapshot s) (snapshot s')"
    by (simp add: keeps_def)
  from 2 have "list_all (\<lambda>(e, x). E e \<and> R (snapshot s') x) (emitted s' s'')"
    by (simp add: keeps_def)
  then have "list_all (\<lambda>(e, x). E e \<and> R (snapshot s) x) (emitted s' s'')"
    by (rule list.pred_mono_strong) (auto intro: tr [OF r])
  moreover from 2 have "R (snapshot s') (snapshot s'')"
    by (simp add: keeps_def)
  ultimately show ?thesis
    using 1 2 e r by (auto simp add: keeps_def emitted_trans extends_trans intro: tr)
qed

lemma keeps_mono:
  assumes "keeps E R s s'" and "\<And>e. E e \<Longrightarrow> E' e" and "\<And>r. R (snapshot s) r \<Longrightarrow> R' (snapshot s) r"
  shows "keeps E' R' s s'"
proof -
  from assms(1) have "list_all (\<lambda>(e, x). E e \<and> R (snapshot s) x) (emitted s s')"
    by (simp add: keeps_def)
  then have "list_all (\<lambda>(e, x). E' e \<and> R' (snapshot s) x) (emitted s s')"
    by (rule list.pred_mono_strong) (auto intro: assms(2,3))
  then show ?thesis
    using assms by (simp add: keeps_def)
qed

lemma bus_step_refl: "bus_step a a"
  by (simp add: bus_step_def bus_only_def)

lemma bus_step_trans: "bus_step a b \<Longrightarrow> bus_step b c \<Longrightarrow> bus_step a c"
  by (simp add: bus_step_def bus_only_def)

lemma keeps_bus_trans:
  "keeps bus_event bus_step s s' \<Longrightarrow> keeps bus_event bus_step s' s'' \<Longrightarrow> keeps bus_event bus_step s s''"
  by (rule keeps_trans [of bus_step]) (auto intro: bus_step_trans)

subsection \<open>The line helpers\<close>

lemma keeps_SCL_low: "keeps bus_event bus_step s (SCL_low s)"
  unfolding keeps_def bus_step_def bus_only_def pin_defs bus_mask_eq_iff
  by (simp add: extends_def emitted_def bus_event_def obs_defs line_defs store_defs pin_defs bit_BIT)

lemma keeps_SDA_low: "keeps bus_event bus_step s (SDA_low s)"
  unfolding keeps_def bus_step_def bus_only_def pin_defs bus_mask_eq_iff
  by (simp add: extends_def emitted_def bus_event_def obs_defs line_defs store_defs pin_defs bit_BIT)

lemma keeps_SCL_release: "keeps bus_event bus_step s (SCL_release s)"
  unfolding keeps_def bus_step_def bus_only_def pin_defs bus_mask_eq_iff
  by (simp add: extends_def emitted_def bus_event_def obs_defs line_defs store_defs pin_defs bit_BIT)

lemma keeps_SDA_release: "keeps bus_event bus_step s (SDA_release s)"
  unfolding keeps_def bus_step_def bus_only_def pin_defs bus_mask_eq_iff
  by (simp add: extends_def emitted_def bus_event_def obs_defs line_defs store_defs pin_defs bit_BIT)

lemma keeps_delay_short: "keeps bus_event bus_step s (delay_short s)"
  unfolding keeps_def bus_step_def bus_only_def pin_defs bus_mask_eq_iff
  by (simp add: extends_def emitted_def bus_event_def obs_defs line_defs store_defs pin_defs bit_BIT)

lemma keeps_SDA_read: "keeps bus_event bus_step s (snd (SDA_read s))"
  unfolding keeps_def bus_step_def bus_only_def pin_defs bus_mask_eq_iff
  by (simp add: extends_def emitted_def bus_event_def obs_defs line_defs store_defs pin_defs bit_BIT)

lemmas keeps_line = keeps_SCL_low keeps_SDA_low keeps_SCL_release keeps_SDA_release
  keeps_delay_short keeps_SDA_read

lemma keeps_i2c_start: "keeps bus_event bus_step s (i2c_start s)"
  unfolding i2c_start_def Let_def by (intro keeps_bus_trans [OF _ keeps_delay_short] keeps_bus_trans [OF _ keeps_SCL_low]
     keeps_bus_trans [OF _ keeps_SDA_low]  keeps_bus_trans [OF _ keeps_SCL_release] keeps_SDA_release)

lemmas i2c_defs = i2c_idle_def i2c_start_def i2c_stop_def i2c_write_bit_def i2c_read_ack_def

lemma decode_append: "decode st (xs @ ys) = decode (decode st xs) ys"
  by (simp add: decode_def)

lemma pins_i2c_start: "driven_low OLED_SCL_BIT (i2c_start s)" "driven_low OLED_SDA_BIT (i2c_start s)"
  by (simp_all add: i2c_defs obs_defs line_defs store_defs pin_defs bit_BIT)

lemma pins_i2c_stop: "bus_released (i2c_stop s)"
  by (simp add: i2c_defs obs_defs line_defs store_defs pin_defs bit_BIT)

lemma pins_i2c_idle: "bus_released (i2c_idle s)"
  by (simp add: i2c_defs obs_defs line_defs store_defs pin_defs bit_BIT)

lemma decode_write_bit:
  assumes "mid_byte st s k w syms" "k < 8"
  shows "mid_byte (decode st (bus s (i2c_write_bit v s))) (i2c_write_bit v s) (Suc k)
           (push_bit 1 w OR of_bool (v \<noteq> 0)) syms"
  using assms
  by (cases "v = 0")
     (simp_all add: mid_byte_def in_step_def decode_def bus_def emitted_def i2c_defs obs_defs line_defs store_defs pin_defs bit_BIT)

lemma decode_read_ack:
  assumes "mid_byte st s 8 w syms"
  shows "mid_byte (decode st (bus s (snd (i2c_read_ack s)))) (snd (i2c_read_ack s)) 0 0
           (syms @ [BYTE w (acked s (nread s))])"
  using assms
  by (simp add: mid_byte_def in_step_def decode_def bus_def emitted_def acked_def i2c_defs obs_defs
      line_defs store_defs pin_defs bit_BIT split_def)

lemma fst_i2c_read_ack: "fst (i2c_read_ack s) = of_bool (acked s (nread s))"
  by (simp add: acked_def i2c_defs line_defs store_defs pin_defs bit_BIT split_def)

lemma nread_i2c_read_ack: "nread (snd (i2c_read_ack s)) = Suc (nread s)"
  by (simp add: i2c_defs line_defs store_defs split_def)

lemma nread_i2c_write_bit: "nread (i2c_write_bit v s) = nread s"
  by (simp add: i2c_defs line_defs store_defs)

lemma nread_i2c_start: "nread (i2c_start s) = nread s"
  by (simp add: i2c_defs line_defs store_defs)

lemma nread_i2c_stop: "nread (i2c_stop s) = nread s"
  by (simp add: i2c_defs line_defs store_defs)

lemma decode_i2c_start:
  assumes "bus_released s" "in_step st s" "\<not> busy st"
  shows "mid_byte (decode st (bus s (i2c_start s))) (i2c_start s) 0 0 (out st @ [START])"
  using assms
  by (simp add: mid_byte_def in_step_def decode_def bus_def emitted_def i2c_defs obs_defs
      line_defs store_defs pin_defs bit_BIT)

lemma decode_i2c_stop:
  assumes "mid_byte st s 0 w syms"
  shows "out (decode st (bus s (i2c_stop s))) = syms @ [STOP]"
    and "\<not> busy (decode st (bus s (i2c_stop s)))"
    and "in_step (decode st (bus s (i2c_stop s))) (i2c_stop s)"
  using assms
  by (simp_all add: mid_byte_def in_step_def decode_def bus_def emitted_def i2c_defs obs_defs
      line_defs store_defs pin_defs bit_BIT)

lemma decode_set_P3OUT:
  assumes "mid_byte st s k w syms"
  shows "mid_byte (decode st (bus s (set_P3OUT v s))) (set_P3OUT v s) k w syms"
  using assms
  by (simp add: mid_byte_def in_step_def decode_def bus_def emitted_def obs_defs
      store_defs pin_defs bit_BIT)

lemma keeps_i2c_stop: "keeps bus_event bus_step s (i2c_stop s)"
  unfolding i2c_stop_def Let_def
  by (intro keeps_bus_trans [OF _ keeps_delay_short] keeps_bus_trans [OF _ keeps_SCL_release]
      keeps_bus_trans [OF _ keeps_SDA_release] keeps_SDA_low)

lemma keeps_i2c_idle: "keeps bus_event bus_step s (i2c_idle s)"
  unfolding i2c_idle_def Let_def
  by (intro keeps_bus_trans [OF _ keeps_delay_short] keeps_bus_trans [OF _ keeps_SCL_release]
      keeps_SDA_release)

lemma keeps_i2c_write_bit: "keeps bus_event bus_step s (i2c_write_bit v s)"
proof -
  have "keeps bus_event bus_step s (if v \<noteq> 0 then SDA_release s else SDA_low s)"
    by (simp add: keeps_SDA_release keeps_SDA_low)
  then show ?thesis
    unfolding i2c_write_bit_def Let_def
    by (intro keeps_bus_trans [OF _ keeps_delay_short] keeps_bus_trans [OF _ keeps_SCL_release]
        keeps_bus_trans [OF _ keeps_SCL_low])
qed

lemma keeps_i2c_read_ack: "keeps bus_event bus_step s (snd (i2c_read_ack s))"
proof -
  have "snd (i2c_read_ack s)
      = delay_short (SCL_low (snd (SDA_read (delay_short (SCL_release (delay_short (SDA_release s)))))))"
    by (simp add: i2c_read_ack_def Let_def split_def)
  then show ?thesis
    by (simp only:)
       (intro keeps_bus_trans [OF _ keeps_delay_short] keeps_bus_trans [OF _ keeps_SCL_release]
        keeps_bus_trans [OF _ keeps_SCL_low] keeps_bus_trans [OF _ keeps_SDA_read] keeps_SDA_release)
qed

subsection \<open>Sending a byte\<close>

lemma bit7: "(x AND 0x80 = 0) = (\<not> bit x 7)" for x :: byte
  using and_exp_eq_0_iff_not_bit [where ?'a = byte, of x 7] by simp

lemma loop_end: "i2c_write_byte_loop 8 b s = s"
  by (subst i2c_write_byte_loop.simps) simp

lemma loop_step:
  assumes "i < 8" "k < 8"
  shows "i2c_write_byte_loop i (push_bit k b) s
    = i2c_write_byte_loop (i + 1) (push_bit (Suc k) b) (i2c_write_bit (of_bool (bit b (7 - k))) s)"
proof -
  have shift: "push_bit 1 (push_bit k b) = push_bit (Suc k) b"
    by (simp only: push_bit_push_bit) simp
  have "bit (push_bit k b) 7 = bit b (7 - k)"
    using assms(2) by (simp only: bit_push_bit_iff) simp
  then have msb: "(push_bit k b AND 0x80 \<noteq> 0) = bit b (7 - k)"
    by (simp only: bit7) simp
  show ?thesis
    by (subst i2c_write_byte_loop.simps) (simp only: assms(1) if_True shift msb)
qed

lemma loop_unroll: "i2c_write_byte_loop 0 b s = write_bits b [7, 6, 5, 4, 3, 2, 1, 0] s"
proof -
  have "i2c_write_byte_loop 0 (push_bit 0 b) s = write_bits b [7, 6, 5, 4, 3, 2, 1, 0] s"
    unfolding write_bits_def
    apply (subst loop_step [of _ _ b], simp, simp)
    apply (subst loop_step [of _ _ b], simp, simp)
    apply (subst loop_step [of _ _ b], simp, simp)
    apply (subst loop_step [of _ _ b], simp, simp)
    apply (subst loop_step [of _ _ b], simp, simp)
    apply (subst loop_step [of _ _ b], simp, simp)
    apply (subst loop_step [of _ _ b], simp, simp)
    apply (subst loop_step [of _ _ b], simp, simp)
    apply (simp add: loop_end)
    done
  then show ?thesis by simp
qed

lemma write_bits_Nil: "write_bits b [] s = s"
  by (simp add: write_bits_def)

lemma write_bits_Cons: "write_bits b (k # ks) s = write_bits b ks (i2c_write_bit (of_bool (bit b k)) s)"
  by (simp add: write_bits_def)

lemma keeps_write_bits: "keeps bus_event bus_step s (write_bits b ks s)"
proof (induction ks arbitrary: s)
  case Nil
  show ?case by (simp add: write_bits_Nil keeps_refl bus_step_refl)
next
  case (Cons k ks)
  show ?case
    unfolding write_bits_Cons by (rule keeps_bus_trans [OF keeps_i2c_write_bit Cons.IH])
qed

lemma nread_write_bits: "nread (write_bits b ks s) = nread s"
  by (induction ks arbitrary: s) (simp_all add: write_bits_Nil write_bits_Cons nread_i2c_write_bit)

lemma keeps_extends: "keeps E R s s' \<Longrightarrow> extends s s'"
  by (simp add: keeps_def)

lemma keeps_P2IN: "keeps E R s s' \<Longrightarrow> P2IN s' = P2IN s"
  by (simp add: keeps_def)

lemma decode_write_bits:
  assumes "mid_byte st s k w syms" "k + length ks \<le> 8"
  shows "mid_byte (decode st (bus s (write_bits b ks s))) (write_bits b ks s) (k + length ks)
           (foldl (\<lambda>w j. push_bit 1 w OR of_bool (bit b j)) w ks) syms"
  using assms
proof (induction ks arbitrary: st s k w)
  case Nil
  then show ?case by (simp add: write_bits_Nil bus_def emitted_refl decode_def)
next
  case (Cons j ks)
  let ?s = "i2c_write_bit (of_bool (bit b j)) s"
  let ?st = "decode st (bus s ?s)"
  from Cons.prems have "k < 8" by simp
  with Cons.prems(1) have "mid_byte ?st ?s (Suc k) (push_bit 1 w OR of_bool (bit b j)) syms"
    using decode_write_bit [of st s k w syms "of_bool (bit b j)"] by simp
  moreover from Cons.prems have "Suc k + length ks \<le> 8" by simp
  ultimately have "mid_byte (decode ?st (bus ?s (write_bits b ks ?s))) (write_bits b ks ?s)
      (Suc k + length ks) (foldl (\<lambda>w j. push_bit 1 w OR of_bool (bit b j)) (push_bit 1 w OR of_bool (bit b j)) ks) syms"
    by (rule Cons.IH)
  moreover have "bus s (write_bits b ks ?s) = bus s ?s @ bus ?s (write_bits b ks ?s)"
    by (intro bus_trans keeps_extends [OF keeps_i2c_write_bit] keeps_extends [OF keeps_write_bits])
  ultimately show ?case
    by (simp add: write_bits_Cons decode_append)
qed

lemma shift_in_byte:
  "foldl (\<lambda>w j. push_bit 1 w OR of_bool (bit b j)) 0 [7, 6, 5, 4, 3, 2, 1, 0] = b" for b :: byte
proof (rule bit_word_eqI)
  fix n :: nat
  assume "n < LENGTH(8)"
  then consider "n = 0" | "n = 1" | "n = 2" | "n = 3" | "n = 4" | "n = 5" | "n = 6" | "n = 7"
    by (simp add: less_Suc_eq numeral_eq_Suc) arith
  then show "bit (foldl (\<lambda>w j. push_bit 1 w OR of_bool (bit b j)) (0::byte) [7, 6, 5, 4, 3, 2, 1, 0]) n
      = bit b n"
    by cases (simp_all only: foldl.simps bit_or_iff bit_push_bit_iff bit_of_bool_iff, simp_all)
qed

lemma i2c_write_byte_unroll:
  "i2c_write_byte b s = i2c_read_ack (write_bits b [7, 6, 5, 4, 3, 2, 1, 0] s)"
  by (simp add: i2c_write_byte_def loop_unroll)

lemma acked_cong: "P2IN s' = P2IN s \<Longrightarrow> acked s' k = acked s k"
  by (simp add: acked_def)

lemma keeps_i2c_write_byte: "keeps bus_event bus_step s (snd (i2c_write_byte b s))"
  unfolding i2c_write_byte_unroll
  by (rule keeps_bus_trans [OF keeps_write_bits keeps_i2c_read_ack])

lemma fst_i2c_write_byte: "fst (i2c_write_byte b s) = of_bool (acked s (nread s))"
  by (simp add: i2c_write_byte_unroll fst_i2c_read_ack nread_write_bits
      acked_cong [OF keeps_P2IN [OF keeps_write_bits]])

lemma nread_i2c_write_byte: "nread (snd (i2c_write_byte b s)) = Suc (nread s)"
  by (simp add: i2c_write_byte_unroll nread_i2c_read_ack nread_write_bits)

lemma decode_i2c_write_byte:
  assumes "mid_byte st s 0 0 syms"
  shows "mid_byte (decode st (bus s (snd (i2c_write_byte b s)))) (snd (i2c_write_byte b s)) 0 0
           (syms @ [BYTE b (acked s (nread s))])"
proof -
  let ?s = "write_bits b [7, 6, 5, 4, 3, 2, 1, 0] s"
  let ?st = "decode st (bus s ?s)"
  have len: "0 + length [7, 6, 5, 4, 3, 2, 1, 0::nat] = 8"
    by simp
  have "mid_byte ?st ?s (0 + length [7, 6, 5, 4, 3, 2, 1, 0::nat])
      (foldl (\<lambda>w j. push_bit 1 w OR of_bool (bit b j)) 0 [7, 6, 5, 4, 3, 2, 1, 0]) syms"
    by (rule decode_write_bits [OF assms]) simp
  then have "mid_byte ?st ?s 8 b syms"
    by (simp only: len shift_in_byte)
  then have "mid_byte (decode ?st (bus ?s (snd (i2c_read_ack ?s)))) (snd (i2c_read_ack ?s)) 0 0
      (syms @ [BYTE b (acked ?s (nread ?s))])"
    by (rule decode_read_ack)
  moreover have "bus s (snd (i2c_read_ack ?s)) = bus s ?s @ bus ?s (snd (i2c_read_ack ?s))"
    by (intro bus_trans keeps_extends [OF keeps_write_bits] keeps_extends [OF keeps_i2c_read_ack])
  ultimately show ?thesis
    by (simp add: i2c_write_byte_unroll decode_append nread_write_bits
        acked_cong [OF keeps_P2IN [OF keeps_write_bits]])
qed

lemma pins_i2c_write_byte:
  "driven_low OLED_SCL_BIT (snd (i2c_write_byte b s))" "released OLED_SDA_BIT (snd (i2c_write_byte b s))"
  by (simp_all add: i2c_write_byte_unroll i2c_read_ack_def obs_defs line_defs store_defs pin_defs bit_BIT split_def)

subsection \<open>A transfer\<close>

lemma acked_i2c_start: "acked (i2c_start s) k = acked s k"
  by (rule acked_cong [OF keeps_P2IN [OF keeps_i2c_start]])

lemma acked_i2c_write_byte: "acked (snd (i2c_write_byte b s)) k = acked s k"
  by (rule acked_cong [OF keeps_P2IN [OF keeps_i2c_write_byte]])

lemma oled_write_paths:
  "oled_write control data s =
     (let s0 = i2c_start s;
          s1 = snd (i2c_write_byte SSD1315_ADDR_WRITE s0)
      in if \<not> acked s (nread s) then (0, i2c_stop s1)
         else
           let s2 = snd (i2c_write_byte control s1)
           in if \<not> acked s (Suc (nread s)) then (0, i2c_stop s2)
              else
                let s3 = snd (i2c_write_byte data s2)
                in if acked s (Suc (Suc (nread s)))
                   then (1, i2c_stop (set_P3OUT (P3OUT s3 OR BIT4) s3))
                   else (0, i2c_stop (set_P3OUT (P3OUT s3 AND lnot BIT4) s3)))"
  by (simp add: oled_write_def Let_def split_def fst_i2c_write_byte nread_i2c_write_byte
      nread_i2c_start acked_i2c_start acked_i2c_write_byte)

lemma decode_chain:
  "extends s s' \<Longrightarrow> extends s' s'' \<Longrightarrow> decode st (bus s s'') = decode (decode st (bus s s')) (bus s' s'')"
  by (simp add: bus_trans decode_append)

lemma extends_set_P3OUT: "extends s (set_P3OUT v s)"
  by (simp add: extends_def store_defs)

lemma SSD1315_ADDR_WRITE_eq: "SSD1315_ADDR_WRITE = 0x78"
  by (simp add: SSD1315_ADDR_WRITE_def)

text \<open>A transfer that stops after the state \<open>s'\<close>, reached inside the transfer.\<close>

lemma decode_then_stop:
  assumes "extends s s'" "mid_byte (decode st (bus s s')) s' 0 w syms"
  shows "out (decode st (bus s (i2c_stop s'))) = syms @ [STOP]"
    and "\<not> busy (decode st (bus s (i2c_stop s')))"
    and "in_step (decode st (bus s (i2c_stop s'))) (i2c_stop s')"
  using decode_i2c_stop [OF assms(2)]
  by (simp_all add: decode_chain [OF assms(1) keeps_extends [OF keeps_i2c_stop]])

lemma decode_then_byte:
  assumes "extends s s'" "mid_byte (decode st (bus s s')) s' 0 0 syms"
  shows "mid_byte (decode st (bus s (snd (i2c_write_byte b s')))) (snd (i2c_write_byte b s')) 0 0
           (syms @ [BYTE b (acked s' (nread s'))])"
  using decode_i2c_write_byte [OF assms(2), of b]
  by (simp add: decode_chain [OF assms(1) keeps_extends [OF keeps_i2c_write_byte]])

lemma decode_then_set_P3OUT:
  assumes "extends s s'" "mid_byte (decode st (bus s s')) s' k w syms"
  shows "mid_byte (decode st (bus s (set_P3OUT v s'))) (set_P3OUT v s') k w syms"
  using decode_set_P3OUT [OF assms(2), of v]
  by (simp add: decode_chain [OF assms(1) extends_set_P3OUT])

lemma decode_oled_write:
  fixes control data :: byte and s :: mcu and st :: decoder
  assumes "bus_released s" "in_step st s" "\<not> busy st"
  defines "st' \<equiv> decode st (bus s (snd (oled_write control data s)))"
  shows "out st' = out st @ transfer control data (acked s (nread s)) (acked s (Suc (nread s)))
           (acked s (Suc (Suc (nread s))))"
    and "\<not> busy st'"
    and "in_step st' (snd (oled_write control data s))"
proof -
  define s0 where "s0 = i2c_start s"
  define s1 where "s1 = snd (i2c_write_byte SSD1315_ADDR_WRITE s0)"
  define s2 where "s2 = snd (i2c_write_byte control s1)"
  define s3 where "s3 = snd (i2c_write_byte data s2)"
  define v where "v = (if acked s (Suc (Suc (nread s))) then P3OUT s3 OR BIT4 else P3OUT s3 AND lnot BIT4)"
  have e0: "extends s s0"
    unfolding s0_def by (rule keeps_extends [OF keeps_i2c_start])
  have e1: "extends s s1"
    unfolding s1_def by (rule extends_trans [OF e0 keeps_extends [OF keeps_i2c_write_byte]])
  have e2: "extends s s2"
    unfolding s2_def by (rule extends_trans [OF e1 keeps_extends [OF keeps_i2c_write_byte]])
  have e3: "extends s s3"
    unfolding s3_def by (rule extends_trans [OF e2 keeps_extends [OF keeps_i2c_write_byte]])
  have e4: "extends s (set_P3OUT v s3)"
    by (rule extends_trans [OF e3 extends_set_P3OUT])
  have n0: "nread s0 = nread s" "\<And>k. acked s0 k = acked s k"
    by (simp_all add: s0_def nread_i2c_start acked_i2c_start)
  have n1: "nread s1 = Suc (nread s)" "\<And>k. acked s1 k = acked s k"
    by (simp_all add: s1_def nread_i2c_write_byte acked_i2c_write_byte n0)
  have n2: "nread s2 = Suc (Suc (nread s))" "\<And>k. acked s2 k = acked s k"
    by (simp_all add: s2_def nread_i2c_write_byte acked_i2c_write_byte n1)
  have m0: "mid_byte (decode st (bus s s0)) s0 0 0 (out st @ [START])"
    unfolding s0_def by (rule decode_i2c_start [OF assms(1-3)])
  have m1: "mid_byte (decode st (bus s s1)) s1 0 0 (out st @ [START, BYTE 0x78 (acked s (nread s))])"
    using decode_then_byte [OF e0 m0, of SSD1315_ADDR_WRITE]
    by (simp add: s1_def n0 SSD1315_ADDR_WRITE_eq)
  have m2: "mid_byte (decode st (bus s s2)) s2 0 0
      (out st @ [START, BYTE 0x78 (acked s (nread s)), BYTE control (acked s (Suc (nread s)))])"
    using decode_then_byte [OF e1 m1, of control] by (simp add: s2_def n1)
  have m3: "mid_byte (decode st (bus s s3)) s3 0 0
      (out st @ [START, BYTE 0x78 (acked s (nread s)), BYTE control (acked s (Suc (nread s))),
         BYTE data (acked s (Suc (Suc (nread s))))])"
    using decode_then_byte [OF e2 m2, of data] by (simp add: s3_def n2)
  have m4: "mid_byte (decode st (bus s (set_P3OUT v s3))) (set_P3OUT v s3) 0 0
      (out st @ [START, BYTE 0x78 (acked s (nread s)), BYTE control (acked s (Suc (nread s))),
         BYTE data (acked s (Suc (Suc (nread s))))])"
    by (rule decode_then_set_P3OUT [OF e3 m3])
  have w: "snd (oled_write control data s) =
      (if \<not> acked s (nread s) then i2c_stop s1
       else if \<not> acked s (Suc (nread s)) then i2c_stop s2
       else i2c_stop (set_P3OUT v s3))"
    by (simp add: oled_write_paths Let_def s0_def s1_def s2_def s3_def v_def)
  show "out st' = out st @ transfer control data (acked s (nread s)) (acked s (Suc (nread s)))
           (acked s (Suc (Suc (nread s))))"
    unfolding st'_def w transfer_def
    using decode_then_stop(1) [OF e1 m1] decode_then_stop(1) [OF e2 m2] decode_then_stop(1) [OF e4 m4]
    by simp
  show "\<not> busy st'"
    unfolding st'_def w
    using decode_then_stop(2) [OF e1 m1] decode_then_stop(2) [OF e2 m2] decode_then_stop(2) [OF e4 m4]
    by simp
  show "in_step st' (snd (oled_write control data s))"
    unfolding st'_def w
    using decode_then_stop(3) [OF e1 m1] decode_then_stop(3) [OF e2 m2] decode_then_stop(3) [OF e4 m4]
    by simp
qed

subsection \<open>Delays\<close>

lemma snapshot_wait: "snapshot (wait k s) = snapshot s"
  by (simp add: wait_def snapshot_def)

lemma wait_0: "wait 0 s = s"
  by (simp add: wait_def)

lemma wait_wait: "wait j (wait k s) = wait (k + j) s"
  by (simp add: wait_def snapshot_def replicate_add)

lemma delay_cycles_wait: "delay_cycles 1000 s = wait 1 s"
  by (simp add: wait_def delay_cycles_def log_def)

lemma delay_cycles_const_eq: "delay_cycles_const n s = wait (unat n) s"
proof (induction n s rule: delay_cycles_const.induct)
  case (1 n s)
  show ?case
  proof (cases "n = 0")
    case True
    then show ?thesis
      by (subst delay_cycles_const.simps) (simp add: wait_0)
  next
    case False
    then have "unat n = Suc (unat (n - 1))"
      by (simp add: unat_minus_one unat_gt_0)
    with False 1 show ?thesis
      by (subst delay_cycles_const.simps) (simp add: delay_cycles_wait wait_wait)
  qed
qed

lemma delay_ms_eq: "delay_ms n s = wait (5 * unat n) s"
proof (induction n s rule: delay_ms.induct)
  case (1 n s)
  show ?case
  proof (cases "n = 0")
    case True
    then show ?thesis
      by (subst delay_ms.simps) (simp add: wait_0)
  next
    case False
    then have "unat n = Suc (unat (n - 1))"
      by (simp add: unat_minus_one unat_gt_0)
    with False 1 show ?thesis
      by (subst delay_ms.simps) (simp add: delay_cycles_const_eq wait_wait)
  qed
qed

lemma delay_s_eq: "delay_s n s = wait (5000 * unat n) s"
proof (induction n s rule: delay_s.induct)
  case (1 n s)
  show ?case
  proof (cases "n = 0")
    case True
    then show ?thesis
      by (subst delay_s.simps) (simp add: wait_0)
  next
    case False
    then have "unat n = Suc (unat (n - 1))"
      by (simp add: unat_minus_one unat_gt_0)
    with False 1 show ?thesis
      by (subst delay_s.simps) (simp add: delay_ms_eq wait_wait)
  qed
qed

lemma emitted_wait: "emitted s (wait k s) = replicate k (Delay_cycles 1000, snapshot s)"
  by (simp add: emitted_def wait_def)

lemma cycles_replicate: "cycles (replicate k (Delay_cycles n, r)) = k * n"
  by (induction k) simp_all

lemma keeps_wait:
  assumes "E (Delay_cycles 1000)" "R (snapshot s) (snapshot s)"
  shows "keeps E R s (wait k s)"
  using assms
  by (simp add: keeps_def emitted_wait snapshot_wait list_all_iff)
     (simp add: extends_def wait_def)

subsection \<open>The acknowledge slot and the idle bus\<close>

lemma bus_i2c_read_ack:
  "bus s (snd (i2c_read_ack s)) =
     [Level (level OLED_SCL_BIT s) True, Gap 100, Level True True, Gap 100,
      Sampled (P2IN s (nread s) AND OLED_SDA_BIT \<noteq> 0),
      Level True True, Level False True, Gap 100]"
  by (simp add: bus_def emitted_def i2c_defs obs_defs line_defs store_defs pin_defs bit_BIT split_def)

lemma in_step_idle: "bus_released s \<Longrightarrow> in_step idle_decoder s"
  by (simp add: in_step_def idle_decoder_def obs_defs)

lemma count_transfer:
  "count_list (transfer control payload a1 a2 a3) START = 1"
  "count_list (transfer control payload a1 a2 a3) STOP = 1"
  by (simp_all add: transfer_def)

subsection \<open>The LED port\<close>

lemma keeps_P3OUT: "keeps bus_event bus_step s s' \<Longrightarrow> P3OUT s' = P3OUT s"
  by (simp add: keeps_def bus_step_def bus_only_def snapshot_def)

lemma keeps_bus_entries:
  assumes "keeps bus_event bus_step s s'"
  shows "list_all (\<lambda>(e, r). e \<noteq> Write R_P3OUT \<and> P3OUT r = P3OUT s) (emitted s s')"
proof -
  from assms have "list_all (\<lambda>(e, r). bus_event e \<and> bus_step (snapshot s) r) (emitted s s')"
    by (simp add: keeps_def)
  then show ?thesis
    by (rule list.pred_mono_strong) (auto simp add: bus_event_def bus_step_def bus_only_def snapshot_def)
qed

lemma keeps_address_nack:
  "keeps bus_event bus_step s (i2c_stop (snd (i2c_write_byte b (i2c_start s))))"
  by (intro keeps_bus_trans [OF _ keeps_i2c_stop] keeps_bus_trans [OF _ keeps_i2c_write_byte]
      keeps_i2c_start)

lemma keeps_control_nack:
  "keeps bus_event bus_step s
     (i2c_stop (snd (i2c_write_byte c (snd (i2c_write_byte b (i2c_start s))))))"
  by (intro keeps_bus_trans [OF _ keeps_i2c_stop] keeps_bus_trans [OF _ keeps_i2c_write_byte]
      keeps_i2c_start)

lemma keeps_three_bytes:
  "keeps bus_event bus_step s
     (snd (i2c_write_byte d (snd (i2c_write_byte c (snd (i2c_write_byte b (i2c_start s)))))))"
  by (intro keeps_bus_trans [OF _ keeps_i2c_write_byte] keeps_i2c_start)

lemma P3OUT_set_P3OUT: "P3OUT (set_P3OUT v s) = v"
  by (simp add: store_defs)

lemma P3OUT_i2c_stop: "P3OUT (i2c_stop s) = P3OUT s"
  by (rule keeps_P3OUT [OF keeps_i2c_stop])

lemma P3OUT_oled_write:
  "P3OUT (snd (oled_write control data s)) =
     (if acked s (nread s) \<and> acked s (Suc (nread s))
      then (if acked s (Suc (Suc (nread s))) then P3OUT s OR BIT4 else P3OUT s AND lnot BIT4)
      else P3OUT s)"
  by (simp add: oled_write_paths Let_def P3OUT_i2c_stop P3OUT_set_P3OUT
      keeps_P3OUT [OF keeps_three_bytes] keeps_P3OUT [OF keeps_address_nack, simplified P3OUT_i2c_stop]
      keeps_P3OUT [OF keeps_control_nack, simplified P3OUT_i2c_stop])

lemma fst_oled_write:
  "fst (oled_write control data s) =
     of_bool (acked s (nread s) \<and> acked s (Suc (nread s)) \<and> acked s (Suc (Suc (nread s))))"
  by (simp add: oled_write_paths Let_def)

lemma emitted_set_P3OUT:
  "emitted s (set_P3OUT v s) = [(Write R_P3OUT, (snapshot s)\<lparr>P3OUT := v\<rparr>)]"
  by (simp add: emitted_def store_defs)

lemma led_written_once:
  assumes "acked s (nread s)" "acked s (Suc (nread s))"
  shows "list_ex (\<lambda>(e, r). e = Write R_P3OUT) (emitted s (snd (oled_write control data s)))"
proof -
  define s3 where "s3 = snd (i2c_write_byte data (snd (i2c_write_byte control
    (snd (i2c_write_byte SSD1315_ADDR_WRITE (i2c_start s))))))"
  define v where "v = (if acked s (Suc (Suc (nread s))) then P3OUT s3 OR BIT4 else P3OUT s3 AND lnot BIT4)"
  have w: "snd (oled_write control data s) = i2c_stop (set_P3OUT v s3)"
    using assms by (simp add: oled_write_paths Let_def s3_def v_def)
  have e3: "extends s s3"
    unfolding s3_def by (rule keeps_extends [OF keeps_three_bytes])
  have "emitted s (i2c_stop (set_P3OUT v s3))
      = emitted s s3 @ emitted s3 (set_P3OUT v s3) @ emitted (set_P3OUT v s3) (i2c_stop (set_P3OUT v s3))"
    by (simp add: emitted_trans [OF e3 extends_trans [OF extends_set_P3OUT keeps_extends [OF keeps_i2c_stop]]]
        emitted_trans [OF extends_set_P3OUT keeps_extends [OF keeps_i2c_stop]])
  then show ?thesis
    by (simp add: w emitted_set_P3OUT)
qed

subsection \<open>The edges of START and STOP\<close>

lemma edges_i2c_start:
  "bus_released s \<Longrightarrow>
     edges True True (bus s (i2c_start s)) = [Wait 100, SDA_falls, Wait 100, SCL_falls, Wait 100]"
  by (simp add: bus_def emitted_def i2c_defs obs_defs line_defs store_defs pin_defs bit_BIT)

lemma edges_i2c_stop:
  "driven_low OLED_SCL_BIT s \<Longrightarrow>
     edges False (level OLED_SDA_BIT s) (bus s (i2c_stop s))
       = (if level OLED_SDA_BIT s then [SDA_falls] else [])
         @ [Wait 100, SCL_rises, Wait 100, SDA_rises, Wait 100]"
  by (simp add: bus_def emitted_def i2c_defs obs_defs line_defs store_defs pin_defs bit_BIT)

lemma actions_i2c_start:
  "map fst (emitted s (i2c_start s)) =
     [Write R_P2DIR, Write R_P2DIR, Delay_cycles 100, Write R_P2OUT, Write R_P2DIR,
      Delay_cycles 100, Write R_P2OUT, Write R_P2DIR, Delay_cycles 100]"
  by (simp add: emitted_def i2c_defs line_defs store_defs)

lemma actions_i2c_stop:
  "map fst (emitted s (i2c_stop s)) =
     [Write R_P2OUT, Write R_P2DIR, Delay_cycles 100, Write R_P2DIR, Delay_cycles 100,
      Write R_P2DIR, Delay_cycles 100]"
  by (simp add: emitted_def i2c_defs line_defs store_defs)

subsection \<open>The display driver\<close>

lemma oled_step_refl: "oled_step a a"
  by (simp add: oled_step_def bus_only_def)

lemma oled_step_trans: "oled_step a b \<Longrightarrow> oled_step b c \<Longrightarrow> oled_step a c"
  by (simp add: oled_step_def bus_only_def)

lemma od_step_refl: "od_step a a"
  by (simp add: od_step_def)

lemma od_step_trans: "od_step a b \<Longrightarrow> od_step b c \<Longrightarrow> od_step a c"
  by (simp add: od_step_def)

lemma keeps_oled_trans:
  "keeps oled_event oled_step s s' \<Longrightarrow> keeps oled_event oled_step s' s''
     \<Longrightarrow> keeps oled_event oled_step s s''"
  by (rule keeps_trans [of oled_step]) (auto intro: oled_step_trans)

lemma keeps_od_trans:
  "keeps any_event od_step s s' \<Longrightarrow> keeps any_event od_step s' s''
     \<Longrightarrow> keeps any_event od_step s s''"
  by (rule keeps_trans [of od_step]) (auto intro: od_step_trans)

lemma keeps_bus_oled: "keeps bus_event bus_step s s' \<Longrightarrow> keeps oled_event oled_step s s'"
  by (erule keeps_mono) (simp_all add: oled_event_def bus_step_def oled_step_def bus_only_def)

lemma keeps_oled_od: "keeps oled_event oled_step s s' \<Longrightarrow> keeps any_event od_step s s'"
  by (erule keeps_mono) (simp_all add: any_event_def oled_step_def od_step_def)

lemma keeps_set_P3OUT: "keeps oled_event oled_step s (set_P3OUT v s)"
  by (simp add: keeps_def extends_def emitted_def oled_event_def oled_step_def bus_only_def
      open_drain_def driven_high_def store_defs)

lemma keeps_oled_write: "keeps oled_event oled_step s (snd (oled_write control data s))"
proof -
  have "keeps oled_event oled_step s
      (i2c_stop (set_P3OUT v (snd (i2c_write_byte d (snd (i2c_write_byte c (snd (i2c_write_byte b (i2c_start s)))))))))"
    for v b c d
    by (intro keeps_oled_trans [OF _ keeps_bus_oled [OF keeps_i2c_stop]]
        keeps_oled_trans [OF _ keeps_set_P3OUT] keeps_bus_oled [OF keeps_three_bytes])
  then show ?thesis
    by (simp add: oled_write_paths Let_def keeps_bus_oled [OF keeps_address_nack]
        keeps_bus_oled [OF keeps_control_nack])
qed

lemma keeps_oled_cmd: "keeps oled_event oled_step s (snd (oled_cmd c s))"
  by (simp add: oled_cmd_def keeps_oled_write)

lemma keeps_wait_oled: "keeps oled_event oled_step s (wait k s)"
  by (rule keeps_wait) (simp_all add: oled_event_def oled_step_refl)

lemma oled_init_minimal_eq:
  "oled_init_minimal s = wait 750 (snd (oled_cmd 0xAF (wait 40000 s)))"
  by (simp add: oled_init_minimal_def USE_CHARGE_PUMP_def delay_s_eq delay_ms_eq)

lemma keeps_oled_init_minimal: "keeps oled_event oled_step s (oled_init_minimal s)"
  unfolding oled_init_minimal_eq
  by (intro keeps_oled_trans [OF _ keeps_wait_oled] keeps_oled_trans [OF _ keeps_oled_cmd]
      keeps_wait_oled)

lemma oled_step_RES:
  "oled_step a r \<Longrightarrow> driven_high OLED_RES_BIT r = driven_high OLED_RES_BIT a"
  unfolding oled_step_def bus_only_def pin_defs bus_mask_eq_iff
  by (simp add: driven_high_def bit_BIT)

lemma oled_step_other_bits:
  "oled_step a r \<Longrightarrow>
     P2OUT r AND NOT (OLED_SCL_BIT OR OLED_SDA_BIT) = P2OUT a AND NOT (OLED_SCL_BIT OR OLED_SDA_BIT)"
  by (simp add: oled_step_def bus_only_def)

subsection \<open>GPIO initialisation and the reset pulse\<close>

lemma pins_oled_gpio_init:
  "driven_high OLED_RES_BIT (oled_gpio_init h s)"
  "bus_released (oled_gpio_init h s)"
  "open_drain (oled_gpio_init h s)"
  by (simp_all add: oled_gpio_init_def USE_INTERNAL_PULLUPS_def i2c_defs obs_defs line_defs
      store_defs pin_defs bit_BIT)

lemma keeps_oled_gpio_init: "keeps any_event od_step s (oled_gpio_init h s)"
  by (simp add: keeps_def extends_def emitted_def any_event_def od_step_def
      oled_gpio_init_def USE_INTERNAL_PULLUPS_def i2c_defs obs_defs line_defs
      store_defs pin_defs bit_BIT)

lemma oled_reset_pulse_eq:
  "oled_reset_pulse s =
     wait 250 (set_P2OUT (P2OUT s AND NOT OLED_RES_BIT OR OLED_RES_BIT)
       (wait 250 (set_P2OUT (P2OUT s AND NOT OLED_RES_BIT) s)))"
  by (simp add: oled_reset_pulse_def delay_ms_eq Let_def) (simp add: wait_def store_defs)

lemma emitted_oled_reset_pulse:
  "emitted s (oled_reset_pulse s) =
     (Write R_P2OUT, (snapshot s)\<lparr>P2OUT := P2OUT s AND NOT OLED_RES_BIT\<rparr>)
       # replicate 250 (Delay_cycles 1000, (snapshot s)\<lparr>P2OUT := P2OUT s AND NOT OLED_RES_BIT\<rparr>)
     @ (Write R_P2OUT, (snapshot s)\<lparr>P2OUT := P2OUT s AND NOT OLED_RES_BIT OR OLED_RES_BIT\<rparr>)
       # replicate 250 (Delay_cycles 1000, (snapshot s)\<lparr>P2OUT := P2OUT s AND NOT OLED_RES_BIT OR OLED_RES_BIT\<rparr>)"
  by (simp add: oled_reset_pulse_eq emitted_def wait_def store_defs)

lemma main_bringup_eq:
  "main_bringup s =
     snd (oled_cmd 0xA5 (wait 750 (snd (oled_cmd 0xAF (wait 40000 (oled_reset_pulse (wait 1000 s)))))))"
  by (simp add: main_bringup_def oled_init_minimal_eq delay_ms_eq)

subsection \<open>The bring-up as a whole\<close>

lemma bus_wait: "bus s (wait k s) = replicate k (Gap 1000)"
  by (simp add: bus_def emitted_wait)

lemma decode_gaps: "decode st (replicate k (Gap n)) = st"
  by (induction k) (simp_all add: decode_def)

lemma decode_then_wait:
  "extends s s' \<Longrightarrow> decode st (bus s (wait k s')) = decode st (bus s s')"
  by (simp add: decode_chain [OF _ keeps_extends [OF keeps_wait_oled]] bus_wait decode_gaps)

lemma in_step_wait: "in_step st (wait k s) = in_step st s"
  by (simp add: in_step_def level_def driven_low_def wait_def)

lemma bus_released_wait: "bus_released (wait k s) = bus_released s"
  by (simp add: bus_released_def released_def wait_def)

lemma nread_wait: "nread (wait k s) = nread s"
  by (simp add: wait_def)

lemma acked_wait: "acked (wait k s) j = acked s j"
  by (simp add: acked_def wait_def)

lemma bus_released_oled_write: "bus_released (snd (oled_write control data s))"
  by (simp add: oled_write_paths Let_def pins_i2c_stop)

lemma bus_released_oled_cmd: "bus_released (snd (oled_cmd c s))"
  by (simp add: oled_cmd_def bus_released_oled_write)

lemma decode_oled_cmd:
  assumes "bus_released s" "in_step st s" "\<not> busy st"
  shows "out (decode st (bus s (snd (oled_cmd c s))))
      = out st @ transfer 0x00 c (acked s (nread s)) (acked s (Suc (nread s))) (acked s (Suc (Suc (nread s))))"
    and "\<not> busy (decode st (bus s (snd (oled_cmd c s))))"
    and "in_step (decode st (bus s (snd (oled_cmd c s)))) (snd (oled_cmd c s))"
  using decode_oled_write [OF assms, of OLED_CTRL_CMD c]
  by (simp_all add: oled_cmd_def OLED_CTRL_CMD_def)

text \<open>Two commands with a wait before each, decoded from an idle bus.\<close>

lemma decode_two_commands:
  fixes s :: mcu and j k :: nat and c1 c2 :: byte
  assumes "bus_released s"
  defines "sa \<equiv> wait j s"
  defines "sb \<equiv> snd (oled_cmd c1 sa)"
  defines "sc \<equiv> wait k sb"
  defines "sd \<equiv> snd (oled_cmd c2 sc)"
  shows "out (decode idle_decoder (bus s sd))
      = transfer 0x00 c1 (acked sa (nread sa)) (acked sa (Suc (nread sa))) (acked sa (Suc (Suc (nread sa))))
        @ transfer 0x00 c2 (acked sc (nread sc)) (acked sc (Suc (nread sc))) (acked sc (Suc (Suc (nread sc))))"
proof -
  have ra: "bus_released sa"
    using assms(1) by (simp add: sa_def bus_released_wait)
  have ia: "in_step idle_decoder sa" "\<not> busy idle_decoder"
    using ra by (simp_all add: in_step_idle) (simp add: idle_decoder_def)
  have ea: "extends s sa"
    unfolding sa_def by (rule keeps_extends [OF keeps_wait_oled])
  have eb: "extends sa sb"
    unfolding sb_def by (rule keeps_extends [OF keeps_oled_cmd])
  have ec: "extends sb sc"
    unfolding sc_def by (rule keeps_extends [OF keeps_wait_oled])
  have ed: "extends sc sd"
    unfolding sd_def by (rule keeps_extends [OF keeps_oled_cmd])
  define st1 where "st1 = decode idle_decoder (bus sa sb)"
  have 1: "out st1 = transfer 0x00 c1 (acked sa (nread sa)) (acked sa (Suc (nread sa))) (acked sa (Suc (Suc (nread sa))))"
    "\<not> busy st1" "in_step st1 sb"
    unfolding st1_def sb_def using decode_oled_cmd [OF ra ia, of c1]
    by (simp_all add: idle_decoder_def)
  have rc: "bus_released sc" "in_step st1 sc"
    using 1 by (simp_all add: sc_def sb_def bus_released_wait bus_released_oled_cmd in_step_wait)
  have 2: "out (decode st1 (bus sc sd)) = out st1
      @ transfer 0x00 c2 (acked sc (nread sc)) (acked sc (Suc (nread sc))) (acked sc (Suc (Suc (nread sc))))"
    unfolding sd_def by (rule decode_oled_cmd(1) [OF rc 1(2)])
  have "bus s sd = bus s sa @ bus sa sb @ bus sb sc @ bus sc sd"
    by (simp add: bus_trans [OF ea extends_trans [OF eb extends_trans [OF ec ed]]]
        bus_trans [OF eb extends_trans [OF ec ed]] bus_trans [OF ec ed])
  then have "decode idle_decoder (bus s sd) = decode st1 (bus sc sd)"
    by (simp add: decode_append sa_def sc_def bus_wait decode_gaps st1_def)
  with 1 2 show ?thesis
    by simp
qed

lemma idle_loop_eq: "idle_loop fuel s = (None, s)"
  by (induction fuel) simp_all

lemma main_eq: "main h fuel s0 = (None, main_bringup (main_setup h s0))"
  by (simp add: main_def idle_loop_eq)

lemma bus_released_main_setup: "bus_released (main_setup h s0)"
  by (simp add: main_setup_def Let_def pins_oled_gpio_init)

lemma bus_released_oled_reset_pulse: "bus_released (oled_reset_pulse s) = bus_released s"
  by (simp add: oled_reset_pulse_eq bus_released_def released_def wait_def store_defs)

lemma no_charge_pump_in_transfer:
  "c = 0xAF \<or> c = 0xA5 \<Longrightarrow>
   list_all (\<lambda>x. x \<notin> {BYTE 0x8D True, BYTE 0x8D False, BYTE 0x14 True, BYTE 0x14 False})
     (transfer 0x00 c a1 a2 a3)"
  by (auto simp add: transfer_def)

subsection \<open>Invariants of the port\<close>

lemma dir_step_refl: "dir_step a a"
  by (simp add: dir_step_def)

lemma dir_step_trans: "dir_step a b \<Longrightarrow> dir_step b c \<Longrightarrow> dir_step a c"
  by (simp add: dir_step_def)

lemma keeps_dir_trans:
  "keeps any_event dir_step s s' \<Longrightarrow> keeps any_event dir_step s' s''
     \<Longrightarrow> keeps any_event dir_step s s''"
  by (rule keeps_trans [of dir_step]) (auto intro: dir_step_trans)

lemma keeps_dir_od: "keeps any_event dir_step s s' \<Longrightarrow> keeps any_event od_step s s'"
  by (erule keeps_mono) (simp_all add: dir_step_def od_step_def)

lemma keeps_wait_dir: "keeps any_event dir_step s (wait k s)"
  by (rule keeps_wait) (simp_all add: any_event_def dir_step_refl)

lemma keeps_oled_reset_pulse: "keeps any_event dir_step s (oled_reset_pulse s)"
proof -
  have "extends s (oled_reset_pulse s)"
    by (simp add: oled_reset_pulse_eq extends_def wait_def store_defs)
  moreover have "P2IN (oled_reset_pulse s) = P2IN s"
    by (simp add: oled_reset_pulse_eq wait_def store_defs)
  moreover have "snapshot (oled_reset_pulse s)
      = (snapshot s)\<lparr>P2OUT := P2OUT s AND NOT OLED_RES_BIT OR OLED_RES_BIT\<rparr>"
    by (simp add: oled_reset_pulse_eq wait_def store_defs)
  moreover have "dir_step (snapshot s) ((snapshot s)\<lparr>P2OUT := P2OUT s AND NOT OLED_RES_BIT\<rparr>)"
    "dir_step (snapshot s) ((snapshot s)\<lparr>P2OUT := P2OUT s AND NOT OLED_RES_BIT OR OLED_RES_BIT\<rparr>)"
    by (simp_all add: dir_step_def open_drain_def driven_high_def snapshot_def pin_defs bit_BIT)
  ultimately show ?thesis
    by (simp add: keeps_def emitted_oled_reset_pulse any_event_def list_all_iff)
qed

lemma keeps_main_setup: "keeps any_event od_step s (main_setup h s)"
proof -
  define pre where "pre = clock_init_dco_default h
    (set_P3OUT (P3OUT (set_P3DIR (P3DIR s OR BIT4) s) AND lnot BIT4)
      (set_P3DIR (P3DIR s OR BIT4) (set_WDTCTL (WDTPW h OR WDTHOLD h) s)))"
  have "keeps any_event od_step s pre"
    by (simp add: pre_def keeps_def extends_def emitted_def any_event_def od_step_def
        clock_init_dco_default_def open_drain_def driven_high_def store_defs)
  moreover have "main_setup h s = oled_gpio_init h pre"
    by (simp add: main_setup_def pre_def Let_def store_defs)
  ultimately show ?thesis
    by (simp add: keeps_od_trans [OF _ keeps_oled_gpio_init])
qed

lemma keeps_main_bringup: "keeps any_event od_step s (main_bringup s)"
  unfolding main_bringup_eq
  by (intro keeps_od_trans [OF _ keeps_oled_od [OF keeps_oled_cmd]]
      keeps_od_trans [OF _ keeps_oled_od [OF keeps_wait_oled]]
      keeps_od_trans [OF _ keeps_dir_od [OF keeps_oled_reset_pulse]]
      keeps_oled_od [OF keeps_wait_oled])

lemma keeps_od_entries:
  assumes "keeps E od_step s s'" "open_drain s"
  shows "list_all (\<lambda>(e, r). open_drain r) (emitted s s')"
proof -
  from assms(1) have "list_all (\<lambda>(e, r). E e \<and> od_step (snapshot s) r) (emitted s s')"
    by (simp add: keeps_def)
  then show ?thesis
    by (rule list.pred_mono_strong)
       (use assms(2) in \<open>auto simp add: od_step_def open_drain_def driven_high_def snapshot_def\<close>)
qed

lemma keeps_bus_od: "keeps bus_event bus_step s s' \<Longrightarrow> keeps any_event od_step s s'"
  by (rule keeps_oled_od [OF keeps_bus_oled])

lemma keeps_dir_entries:
  assumes "keeps E dir_step s s'" "bus_released s"
  shows "list_all (\<lambda>(e, r). bus_released r) (emitted s s')"
proof -
  from assms(1) have "list_all (\<lambda>(e, r). E e \<and> dir_step (snapshot s) r) (emitted s s')"
    by (simp add: keeps_def)
  then show ?thesis
    by (rule list.pred_mono_strong)
       (use assms(2) in \<open>auto simp add: dir_step_def bus_released_def released_def snapshot_def\<close>)
qed

lemma keeps_oled_RES_entries:
  assumes "keeps E oled_step s s'" "driven_high OLED_RES_BIT s"
  shows "list_all (\<lambda>(e, r). driven_high OLED_RES_BIT r) (emitted s s')"
proof -
  have "driven_high OLED_RES_BIT (snapshot s)"
    using assms(2) by (simp add: driven_high_def snapshot_def)
  moreover from assms(1) have "list_all (\<lambda>(e, r). E e \<and> oled_step (snapshot s) r) (emitted s s')"
    by (simp add: keeps_def)
  ultimately show ?thesis
    by (elim list.pred_mono_strong) (auto simp add: oled_step_RES)
qed

lemma RES_bit_of_bus_mask:
  "x AND NOT (OLED_SCL_BIT OR OLED_SDA_BIT) = y AND NOT (OLED_SCL_BIT OR OLED_SDA_BIT)
     \<Longrightarrow> x AND OLED_RES_BIT = y AND OLED_RES_BIT"
  unfolding pin_defs bus_mask_eq_iff bit_eq_iff [where ?'a = byte]
  by (auto simp add: bit_BIT)

lemma keeps_oled_RES_bit_entries:
  assumes "keeps E oled_step s s'"
  shows "list_all (\<lambda>(e, r). P2OUT r AND OLED_RES_BIT = P2OUT s AND OLED_RES_BIT) (emitted s s')"
proof -
  from assms(1) have "list_all (\<lambda>(e, r). E e \<and> oled_step (snapshot s) r) (emitted s s')"
    by (simp add: keeps_def)
  then show ?thesis
    by (rule list.pred_mono_strong)
       (auto simp add: oled_step_def bus_only_def snapshot_def intro: RES_bit_of_bus_mask)
qed

lemma RES_main_setup: "driven_high OLED_RES_BIT (main_setup h s)"
  by (simp add: main_setup_def Let_def pins_oled_gpio_init)

lemma open_drain_main_setup: "open_drain (main_setup h s)"
  by (simp add: main_setup_def Let_def pins_oled_gpio_init)

lemma RES_wait: "driven_high OLED_RES_BIT (wait k s) = driven_high OLED_RES_BIT s"
  by (simp add: driven_high_def wait_def)

lemma RES_oled_reset_pulse:
  "driven_high OLED_RES_BIT s \<Longrightarrow> driven_high OLED_RES_BIT (oled_reset_pulse s)"
  by (simp add: oled_reset_pulse_eq driven_high_def wait_def store_defs pin_defs bit_BIT)

lemma keeps_after_reset:
  "keeps oled_event oled_step s (snd (oled_cmd c2 (wait k (snd (oled_cmd c1 (wait j s))))))"
  by (intro keeps_oled_trans [OF _ keeps_oled_cmd] keeps_oled_trans [OF _ keeps_wait_oled]
      keeps_wait_oled)

lemma P2OUT_line_low:
  "P2OUT (SCL_low s) = P2OUT s AND NOT OLED_SCL_BIT"
  "P2OUT (SDA_low s) = P2OUT s AND NOT OLED_SDA_BIT"
  by (simp_all add: line_defs store_defs)

lemma keeps_main: "keeps any_event od_step s (snd (main h fuel s))"
  by (simp add: main_eq keeps_od_trans [OF keeps_main_setup keeps_main_bringup])

lemma released_until_start:
  "bus_released s \<Longrightarrow> list_all (\<lambda>(e, r). bus_released r) (take 4 (emitted s (i2c_start s)))"
  by (simp add: emitted_def i2c_defs obs_defs line_defs store_defs pin_defs bit_BIT)

subsection \<open>How many events an operation adds\<close>

lemma length_emitted_trans:
  "extends s s' \<Longrightarrow> extends s' s'' \<Longrightarrow>
     length (emitted s s'') = length (emitted s s') + length (emitted s' s'')"
  by (simp add: emitted_trans)

lemma length_i2c:
  "length (emitted s (i2c_idle s)) = 3"
  "length (emitted s (i2c_start s)) = 9"
  "length (emitted s (i2c_stop s)) = 7"
  "length (emitted s (i2c_write_bit v s)) = (if v = 0 then 8 else 7)"
  "length (emitted s (snd (i2c_read_ack s))) = 8"
  by (simp_all add: emitted_def i2c_defs line_defs store_defs split_def)

lemma length_write_bits: "length (emitted s (write_bits b ks s)) \<le> 8 * length ks"
proof (induction ks arbitrary: s)
  case Nil
  show ?case by (simp add: write_bits_Nil emitted_refl)
next
  case (Cons k ks)
  let ?s = "i2c_write_bit (of_bool (bit b k)) s"
  have "length (emitted s (write_bits b ks ?s))
      = length (emitted s ?s) + length (emitted ?s (write_bits b ks ?s))"
    by (intro length_emitted_trans keeps_extends [OF keeps_i2c_write_bit] keeps_extends [OF keeps_write_bits])
  moreover have "length (emitted s ?s) \<le> 8"
    by (simp add: length_i2c)
  moreover have "length (emitted ?s (write_bits b ks ?s)) \<le> 8 * length ks"
    by (rule Cons.IH)
  ultimately show ?case
    by (simp add: write_bits_Cons)
qed

lemma length_i2c_write_byte: "length (emitted s (snd (i2c_write_byte b s))) \<le> 72"
proof -
  let ?s = "write_bits b [7, 6, 5, 4, 3, 2, 1, 0] s"
  have "length (emitted s (snd (i2c_read_ack ?s)))
      = length (emitted s ?s) + length (emitted ?s (snd (i2c_read_ack ?s)))"
    by (intro length_emitted_trans keeps_extends [OF keeps_write_bits] keeps_extends [OF keeps_i2c_read_ack])
  moreover have "length (emitted s ?s) \<le> 8 * length [7, 6, 5, 4, 3, 2, 1, 0::nat]"
    by (rule length_write_bits)
  ultimately show ?thesis
    by (simp add: i2c_write_byte_unroll length_i2c)
qed

lemma length_then_byte:
  assumes "extends s s'" "length (emitted s s') \<le> n"
  shows "length (emitted s (snd (i2c_write_byte b s'))) \<le> n + 72"
  using length_emitted_trans [OF assms(1) keeps_extends [OF keeps_i2c_write_byte], of b]
    length_i2c_write_byte [of s' b] assms(2)
  by simp

lemma length_then_stop:
  assumes "extends s s'" "length (emitted s s') \<le> n"
  shows "length (emitted s (i2c_stop s')) \<le> n + 7"
  using length_emitted_trans [OF assms(1) keeps_extends [OF keeps_i2c_stop]] assms(2)
  by (simp add: length_i2c)

lemma length_then_set_P3OUT:
  assumes "extends s s'" "length (emitted s s') \<le> n"
  shows "length (emitted s (set_P3OUT v s')) \<le> n + 1"
  using length_emitted_trans [OF assms(1) extends_set_P3OUT, of v] assms(2)
  by (simp add: emitted_set_P3OUT)

lemma length_oled_write: "length (emitted s (snd (oled_write control data s))) \<le> 233"
proof -
  define s0 where "s0 = i2c_start s"
  define s1 where "s1 = snd (i2c_write_byte SSD1315_ADDR_WRITE s0)"
  define s2 where "s2 = snd (i2c_write_byte control s1)"
  define s3 where "s3 = snd (i2c_write_byte data s2)"
  define v where "v = (if acked s (Suc (Suc (nread s))) then P3OUT s3 OR BIT4 else P3OUT s3 AND lnot BIT4)"
  have e0: "extends s s0"
    unfolding s0_def by (rule keeps_extends [OF keeps_i2c_start])
  have e1: "extends s s1"
    unfolding s1_def by (rule extends_trans [OF e0 keeps_extends [OF keeps_i2c_write_byte]])
  have e2: "extends s s2"
    unfolding s2_def by (rule extends_trans [OF e1 keeps_extends [OF keeps_i2c_write_byte]])
  have e3: "extends s s3"
    unfolding s3_def by (rule extends_trans [OF e2 keeps_extends [OF keeps_i2c_write_byte]])
  have e4: "extends s (set_P3OUT v s3)"
    by (rule extends_trans [OF e3 extends_set_P3OUT])
  have l0: "length (emitted s s0) \<le> 9"
    by (simp add: s0_def length_i2c)
  have l1: "length (emitted s s1) \<le> 9 + 72"
    unfolding s1_def by (rule length_then_byte [OF e0 l0])
  have l2: "length (emitted s s2) \<le> 9 + 72 + 72"
    unfolding s2_def by (rule length_then_byte [OF e1 l1])
  have l3: "length (emitted s s3) \<le> 9 + 72 + 72 + 72"
    unfolding s3_def by (rule length_then_byte [OF e2 l2])
  have l4: "length (emitted s (set_P3OUT v s3)) \<le> 9 + 72 + 72 + 72 + 1"
    by (rule length_then_set_P3OUT [OF e3 l3])
  have w: "snd (oled_write control data s) =
      (if \<not> acked s (nread s) then i2c_stop s1
       else if \<not> acked s (Suc (nread s)) then i2c_stop s2
       else i2c_stop (set_P3OUT v s3))"
    by (simp add: oled_write_paths Let_def s0_def s1_def s2_def s3_def v_def)
  show ?thesis
    unfolding w
    using length_then_stop [OF e1 l1] length_then_stop [OF e2 l2] length_then_stop [OF e4 l4]
    by simp
qed

lemma length_oled_gpio_init: "length (emitted s (oled_gpio_init h s)) \<le> 8"
  by (cases "PM5CTL0_defined h")
     (simp_all add: emitted_def oled_gpio_init_def USE_INTERNAL_PULLUPS_def i2c_defs line_defs store_defs)

lemma length_oled_reset_pulse: "length (emitted s (oled_reset_pulse s)) = 502"
  by (simp add: emitted_oled_reset_pulse)

lemma length_wait: "length (emitted s (wait k s)) = k"
  by (simp add: emitted_wait)

lemma length_then_wait:
  assumes "extends s s'" "length (emitted s s') \<le> n"
  shows "length (emitted s (wait k s')) \<le> n + k"
  using length_emitted_trans [OF assms(1) keeps_extends [OF keeps_wait_oled], of k] assms(2)
  by (simp add: length_wait)

lemma length_then_cmd:
  assumes "extends s s'" "length (emitted s s') \<le> n"
  shows "length (emitted s (snd (oled_cmd c s'))) \<le> n + 233"
  using length_emitted_trans [OF assms(1) keeps_extends [OF keeps_oled_cmd], of c]
    length_oled_write [of s' OLED_CTRL_CMD c] assms(2)
  by (simp add: oled_cmd_def)

lemma length_oled_init_minimal: "length (emitted s (oled_init_minimal s)) \<le> 40983"
proof -
  have 1: "length (emitted s (wait 40000 s)) \<le> 40000"
    by (simp add: length_wait)
  have e1: "extends s (wait 40000 s)"
    by (rule keeps_extends [OF keeps_wait_oled])
  have 2: "length (emitted s (snd (oled_cmd 0xAF (wait 40000 s)))) \<le> 40000 + 233"
    by (rule length_then_cmd [OF e1 1])
  have e2: "extends s (snd (oled_cmd 0xAF (wait 40000 s)))"
    by (rule extends_trans [OF e1 keeps_extends [OF keeps_oled_cmd]])
  show ?thesis
    unfolding oled_init_minimal_eq using length_then_wait [OF e2 2, of 750] by simp
qed

lemma length_main_setup: "length (emitted s (main_setup h s)) \<le> 16"
  by (cases "PM5CTL0_defined h")
     (simp_all add: emitted_def main_setup_def clock_init_dco_default_def oled_gpio_init_def
      USE_INTERNAL_PULLUPS_def i2c_defs line_defs store_defs)

lemma length_main_bringup: "length (emitted s (main_bringup s)) \<le> 42718"
proof -
  have e1: "extends s (wait 1000 s)"
    by (rule keeps_extends [OF keeps_wait_oled])
  have e2: "extends s (oled_reset_pulse (wait 1000 s))"
    by (rule extends_trans [OF e1 keeps_extends [OF keeps_oled_reset_pulse]])
  have e3: "extends s (oled_init_minimal (oled_reset_pulse (wait 1000 s)))"
    by (rule extends_trans [OF e2 keeps_extends [OF keeps_oled_init_minimal]])
  have 2: "length (emitted s (oled_reset_pulse (wait 1000 s))) \<le> 1000 + 502"
    using length_emitted_trans [OF e1 keeps_extends [OF keeps_oled_reset_pulse]]
    by (simp add: length_wait length_oled_reset_pulse)
  have 3: "length (emitted s (oled_init_minimal (oled_reset_pulse (wait 1000 s)))) \<le> 1000 + 502 + 40983"
    using length_emitted_trans [OF e2 keeps_extends [OF keeps_oled_init_minimal]] 2
      length_oled_init_minimal [of "oled_reset_pulse (wait 1000 s)"]
    by simp
  show ?thesis
    using length_then_cmd [OF e3 3, of "0xA5"]
    by (simp add: main_bringup_def delay_ms_eq)
qed

subsection \<open>The other bits of the LED port\<close>

lemma or_BIT4_other_bits: "(x OR BIT4) AND NOT BIT4 = x AND NOT BIT4"
  unfolding bit_eq_iff [where ?'a = byte] by (auto simp add: bit_BIT)

lemma lnot_BIT4: "lnot BIT4 = 0"
  by (simp add: lnot_def BIT4_def)

lemma P3OUT_entries_oled_write:
  "list_all (\<lambda>(e, r). P3OUT r = P3OUT s \<or> P3OUT r = P3OUT s OR BIT4 \<or> P3OUT r = 0)
     (emitted s (snd (oled_write control data s)))"
proof (cases "acked s (nread s) \<and> acked s (Suc (nread s))")
  case False
  then have "keeps bus_event bus_step s (snd (oled_write control data s))"
    by (auto simp add: oled_write_paths Let_def keeps_address_nack keeps_control_nack)
  then have "list_all (\<lambda>(e, r). e \<noteq> Write R_P3OUT \<and> P3OUT r = P3OUT s)
      (emitted s (snd (oled_write control data s)))"
    by (rule keeps_bus_entries)
  then show ?thesis
    by (rule list.pred_mono_strong) auto
next
  case True
  define s3 where "s3 = snd (i2c_write_byte data (snd (i2c_write_byte control
    (snd (i2c_write_byte SSD1315_ADDR_WRITE (i2c_start s))))))"
  define v where "v = (if acked s (Suc (Suc (nread s))) then P3OUT s3 OR BIT4 else P3OUT s3 AND lnot BIT4)"
  have w: "snd (oled_write control data s) = i2c_stop (set_P3OUT v s3)"
    using True by (simp add: oled_write_paths Let_def s3_def v_def)
  have k3: "keeps bus_event bus_step s s3"
    unfolding s3_def by (rule keeps_three_bytes)
  have p3: "P3OUT s3 = P3OUT s"
    by (rule keeps_P3OUT [OF k3])
  have v: "v = P3OUT s OR BIT4 \<or> v = 0"
    by (simp add: v_def p3 lnot_BIT4)
  have e3: "extends s s3"
    by (rule keeps_extends [OF k3])
  have e: "emitted s (i2c_stop (set_P3OUT v s3))
      = emitted s s3 @ emitted s3 (set_P3OUT v s3) @ emitted (set_P3OUT v s3) (i2c_stop (set_P3OUT v s3))"
    by (simp add: emitted_trans [OF e3 extends_trans [OF extends_set_P3OUT keeps_extends [OF keeps_i2c_stop]]]
        emitted_trans [OF extends_set_P3OUT keeps_extends [OF keeps_i2c_stop]])
  have 1: "list_all (\<lambda>(e, r). P3OUT r = P3OUT s \<or> P3OUT r = P3OUT s OR BIT4 \<or> P3OUT r = 0)
      (emitted s s3)"
    by (rule list.pred_mono_strong [OF keeps_bus_entries [OF k3]]) auto
  have 2: "list_all (\<lambda>(e, r). P3OUT r = P3OUT s \<or> P3OUT r = P3OUT s OR BIT4 \<or> P3OUT r = 0)
      (emitted s3 (set_P3OUT v s3))"
    using v by (auto simp add: emitted_set_P3OUT)
  have 3: "list_all (\<lambda>(e, r). P3OUT r = P3OUT s \<or> P3OUT r = P3OUT s OR BIT4 \<or> P3OUT r = 0)
      (emitted (set_P3OUT v s3) (i2c_stop (set_P3OUT v s3)))"
    by (rule list.pred_mono_strong [OF keeps_bus_entries [OF keeps_i2c_stop]])
       (use v in \<open>auto simp add: P3OUT_set_P3OUT\<close>)
  show ?thesis
    unfolding w e using 1 2 3 by simp
qed

lemma other_bits_oled_write:
  assumes "P3OUT s AND NOT BIT4 = 0"
  shows "list_all (\<lambda>(e, r). P3OUT r AND NOT BIT4 = P3OUT s AND NOT BIT4)
           (emitted s (snd (oled_write control data s)))"
    and "P3OUT (snd (oled_write control data s)) AND NOT BIT4 = P3OUT s AND NOT BIT4"
proof -
  show "list_all (\<lambda>(e, r). P3OUT r AND NOT BIT4 = P3OUT s AND NOT BIT4)
      (emitted s (snd (oled_write control data s)))"
    by (rule list.pred_mono_strong [OF P3OUT_entries_oled_write])
       (use assms in \<open>auto simp add: or_BIT4_other_bits\<close>)
  show "P3OUT (snd (oled_write control data s)) AND NOT BIT4 = P3OUT s AND NOT BIT4"
    using assms by (simp add: P3OUT_oled_write lnot_BIT4 or_BIT4_other_bits)
qed

lemma led_bit_oled_write:
  assumes "acked s (nread s)" "acked s (Suc (nread s))"
  shows "(P3OUT (snd (oled_write control data s)) AND BIT4 \<noteq> 0) = acked s (Suc (Suc (nread s)))"
  using assms by (simp add: P3OUT_oled_write lnot_BIT4 bit_BIT)

lemma P3OUT_wait: "P3OUT (wait k s) = P3OUT s"
  by (simp add: wait_def)

lemma P3OUT_oled_reset_pulse: "P3OUT (oled_reset_pulse s) = P3OUT s"
  by (simp add: oled_reset_pulse_eq wait_def store_defs)

lemma P3OUT_main_setup: "P3OUT (main_setup h s) = 0"
  by (cases "PM5CTL0_defined h")
     (simp_all add: main_setup_def clock_init_dco_default_def oled_gpio_init_def USE_INTERNAL_PULLUPS_def
      lnot_BIT4 i2c_defs line_defs store_defs)

lemma P3OUT_oled_cmd_other_bits:
  "P3OUT s AND NOT BIT4 = 0 \<Longrightarrow> P3OUT (snd (oled_cmd c s)) AND NOT BIT4 = 0"
  using other_bits_oled_write(2) [of s OLED_CTRL_CMD c] by (simp add: oled_cmd_def)

section \<open>Properties of the firmware\<close>

subsection \<open>The transfer of \<open>oled_write\<close>\<close>

text \<open>
  C1.  For every control byte and payload byte, \<open>oled_write\<close> runs \<open>i2c_start\<close>, sends the
  address byte 0x78 and, if that byte is not acknowledged, runs \<open>i2c_stop\<close> and returns 0;
  otherwise it sends the control byte and, if that byte is not acknowledged, runs \<open>i2c_stop\<close>
  and returns 0; otherwise it sends the payload byte, runs \<open>i2c_stop\<close> and returns the
  acknowledge result of the payload byte.  Started with both lines released, what a protocol
  decoder reads from the two lines is exactly the transfer of the specification: START, the
  byte 0x78, (the control byte, (the payload byte,)) STOP, and nothing else.  On every path
  this is one START and one STOP.  Here \<open>a1\<close>, \<open>a2\<close>, \<open>a3\<close> say whether the slave holds SDA
  low at the first, second and third acknowledge slot.
\<close>

theorem oled_write_transfer:
  "let a1 = acked s (nread s); a2 = acked s (nread s + 1); a3 = acked s (nread s + 2);
       s1 = snd (i2c_write_byte 0x78 (i2c_start s));
       s2 = snd (i2c_write_byte control s1);
       s3 = snd (i2c_write_byte data s2)
   in oled_write control data s =
        (if \<not> a1 then (0, i2c_stop s1)
         else if \<not> a2 then (0, i2c_stop s2)
         else (of_bool a3,
               i2c_stop (set_P3OUT (if a3 then P3OUT s3 OR BIT4 else P3OUT s3 AND lnot BIT4) s3)))
      \<and> (bus_released s \<longrightarrow>
           out (decode idle_decoder (bus s (snd (oled_write control data s))))
             = transfer control data a1 a2 a3
           \<and> count_list (out (decode idle_decoder (bus s (snd (oled_write control data s))))) START = 1
           \<and> count_list (out (decode idle_decoder (bus s (snd (oled_write control data s))))) STOP = 1)"
proof -
  have "bus_released s \<Longrightarrow>
      out (decode idle_decoder (bus s (snd (oled_write control data s))))
        = transfer control data (acked s (nread s)) (acked s (Suc (nread s))) (acked s (Suc (Suc (nread s))))"
    using decode_oled_write(1) [of s idle_decoder control data]
    by (simp add: in_step_idle) (simp add: idle_decoder_def)
  then show ?thesis
    by (simp add: Let_def oled_write_paths count_transfer SSD1315_ADDR_WRITE_eq)
qed

theorem oled_write_transfer_witness:
  "bus_released idle_state
   \<and> out (decode idle_decoder (bus idle_state (snd (oled_write 0x00 0xAF idle_state))))
       = [START, BYTE 0x78 True, BYTE 0x00 True, BYTE 0xAF True, STOP]"
proof -
  have r: "bus_released idle_state"
    by (simp add: idle_state_def bus_released_def released_def)
  have a: "acked idle_state k" for k
    by (simp add: idle_state_def acked_def)
  have "out (decode idle_decoder (bus idle_state (snd (oled_write 0x00 0xAF idle_state))))
      = transfer 0x00 0xAF (acked idle_state (nread idle_state)) (acked idle_state (nread idle_state + 1))
          (acked idle_state (nread idle_state + 2))"
    using oled_write_transfer [of idle_state "0x00" "0xAF"] r unfolding Let_def by blast
  with r a show ?thesis
    by (simp add: transfer_def)
qed

subsection \<open>Sending a byte, most significant bit first\<close>

text \<open>
  C5.  For every byte \<open>b\<close>, \<open>i2c_write_byte b\<close> is eight calls of \<open>i2c_write_bit\<close>, with the bits
  7, 6, ..., 0 of \<open>b\<close> in this order, followed by one \<open>i2c_read_ack\<close>, whose result it returns.
  \<open>i2c_read_ack\<close> returns 1 if the SDA bit of the value it loads from \<open>P2IN\<close> is 0, and 0
  otherwise; it takes this sample after it has released SCL and before it pulls SCL low again.
  On the wire, inside a transfer, a protocol decoder that shifts the bits in most significant
  first reads exactly the byte \<open>b\<close>, with the acknowledge bit the master sampled.
\<close>

theorem i2c_write_byte_msb_first:
  "i2c_write_byte b s =
     i2c_read_ack (foldl (\<lambda>s k. i2c_write_bit (of_bool (bit b k)) s) s [7, 6, 5, 4, 3, 2, 1, 0])
   \<and> fst (i2c_read_ack s) = of_bool (P2IN s (nread s) AND OLED_SDA_BIT = 0)
   \<and> bus s (snd (i2c_read_ack s)) =
       [Level (level OLED_SCL_BIT s) True, Gap 100, Level True True, Gap 100,
        Sampled (P2IN s (nread s) AND OLED_SDA_BIT \<noteq> 0),
        Level True True, Level False True, Gap 100]
   \<and> (mid_byte st s 0 0 syms \<longrightarrow>
        out (decode st (bus s (snd (i2c_write_byte b s))))
          = syms @ [BYTE b (P2IN s (nread s) AND OLED_SDA_BIT = 0)])"
proof -
  have "out (decode st (bus s (snd (i2c_write_byte b s)))) = syms @ [BYTE b (acked s (nread s))]"
    if "mid_byte st s 0 0 syms"
    using decode_i2c_write_byte [OF that, of b] by (simp add: mid_byte_def)
  then show ?thesis
    using i2c_write_byte_unroll [of b s] fst_i2c_read_ack [of s] bus_i2c_read_ack [of s]
    by (simp add: write_bits_def acked_def)
qed

theorem i2c_write_byte_msb_first_witness:
  "mid_byte \<lparr>scl = False, sda = False, busy = True, pulse = False, latch = False, nbits = 0,
       sr = 0, ack = False, out = [START]\<rparr> (idle_state\<lparr>P2DIR := 0x06\<rparr>) 0 0 [START]
   \<and> out (decode \<lparr>scl = False, sda = False, busy = True, pulse = False, latch = False, nbits = 0,
          sr = 0, ack = False, out = [START]\<rparr>
        (bus (idle_state\<lparr>P2DIR := 0x06\<rparr>) (snd (i2c_write_byte 0x78 (idle_state\<lparr>P2DIR := 0x06\<rparr>)))))
       = [START, BYTE 0x78 True]"
proof -
  define st where "st = \<lparr>scl = False, sda = False, busy = True, pulse = False, latch = False,
    nbits = 0, sr = 0, ack = False, out = [START]\<rparr>"
  define s where "s = idle_state\<lparr>P2DIR := 0x06\<rparr>"
  have m: "mid_byte st s 0 0 [START]"
    by (simp add: mid_byte_def in_step_def st_def s_def idle_state_def obs_defs pin_defs
        BIT1_def BIT2_def)
  have "P2IN s (nread s) AND OLED_SDA_BIT = 0"
    by (simp add: s_def idle_state_def)
  moreover have "out (decode st (bus s (snd (i2c_write_byte 0x78 s))))
      = [START] @ [BYTE 0x78 (P2IN s (nread s) AND OLED_SDA_BIT = 0)]"
    using i2c_write_byte_msb_first [of "0x78" s st "[START]"] m by blast
  ultimately show ?thesis
    using m unfolding st_def s_def by simp
qed

subsection \<open>The status LED\<close>

text \<open>
  C9.  When \<open>oled_write\<close> stops early because the address byte or the control byte is not
  acknowledged, it returns 0 and stores nothing to \<open>P3OUT\<close>: the LED port keeps its value
  at every point of the call.  A store to \<open>P3OUT\<close> happens exactly when the first two bytes
  have been acknowledged, that is, when all three bytes have been sent.
\<close>

theorem oled_write_abort_keeps_led:
  "let a1 = acked s (nread s); a2 = acked s (nread s + 1);
       s' = snd (oled_write control data s)
   in list_ex (\<lambda>(e, r). e = Write R_P3OUT) (emitted s s') = (a1 \<and> a2)
      \<and> (\<not> (a1 \<and> a2) \<longrightarrow>
            fst (oled_write control data s) = 0 \<and> P3OUT s' = P3OUT s
            \<and> list_all (\<lambda>(e, r). P3OUT r = P3OUT s) (emitted s s'))"
proof (cases "acked s (nread s) \<and> acked s (Suc (nread s))")
  case True
  then show ?thesis
    by (simp add: Let_def led_written_once)
next
  case False
  define s' where "s' = snd (oled_write control data s)"
  from False have "keeps bus_event bus_step s s'"
    unfolding s'_def
    by (auto simp add: oled_write_paths Let_def keeps_address_nack keeps_control_nack)
  then have "list_all (\<lambda>(e, r). e \<noteq> Write R_P3OUT \<and> P3OUT r = P3OUT s) (emitted s s')"
    by (rule keeps_bus_entries)
  then have "\<not> list_ex (\<lambda>(e, r). e = Write R_P3OUT) (emitted s s')"
    and "list_all (\<lambda>(e, r). P3OUT r = P3OUT s) (emitted s s')"
    by (auto simp add: list_all_iff list_ex_iff)
  with False show ?thesis
    unfolding s'_def by (auto simp add: Let_def P3OUT_oled_write fst_oled_write)
qed

theorem oled_write_abort_keeps_led_witness:
  "\<not> acked (idle_state\<lparr>P3OUT := 0x10, P2IN := \<lambda>k. 0x04\<rparr>) 0
   \<and> fst (oled_write 0x00 0xAF (idle_state\<lparr>P3OUT := 0x10, P2IN := \<lambda>k. 0x04\<rparr>)) = 0
   \<and> P3OUT (snd (oled_write 0x00 0xAF (idle_state\<lparr>P3OUT := 0x10, P2IN := \<lambda>k. 0x04\<rparr>))) = 0x10"
proof -
  define s where "s = idle_state\<lparr>P3OUT := 0x10, P2IN := \<lambda>k. 0x04\<rparr>"
  have n: "\<not> acked s (nread s)" "nread s = 0" "P3OUT s = 0x10"
    by (simp_all add: s_def idle_state_def acked_def pin_defs BIT2_def)
  then have "fst (oled_write 0x00 0xAF s) = 0 \<and> P3OUT (snd (oled_write 0x00 0xAF s)) = P3OUT s"
    using oled_write_abort_keeps_led [of s "0x00" "0xAF"] unfolding Let_def by blast
  with n show ?thesis
    by (simp add: s_def [symmetric])
qed

text \<open>
  C3.  A transfer that sends all three bytes leaves bit 4 of \<open>P3OUT\<close>, the LED, at 1 if the
  payload byte was acknowledged and at 0 if not, and returns that acknowledge result.  No
  other bit of \<open>P3OUT\<close> is modified by a transfer of the firmware: \<open>main\<close> clears the port
  before the GPIO initialisation, so at the call of each of its two transfers the other seven
  bits are 0, and from such a state they are the same in every register file of the trace of
  \<open>oled_write\<close> and at its return, on every path.  (The store \<open>P3OUT &= !BIT4\<close> of the
  not-acknowledged branch writes 0 to the whole port; with the other bits 0 already, only
  bit 4 can change.)
\<close>

theorem led_follows_payload_ack:
  "let s = main_setup h s0;
       sa = delay_s 8 (oled_reset_pulse (delay_ms 200 s));
       sb = snd (oled_cmd 0xAF sa);
       sc = delay_ms 150 sb;
       sd = snd (oled_cmd 0xA5 sc)
   in main h fuel s0 = (None, sd)
      \<and> P3OUT sa AND NOT BIT4 = 0
      \<and> list_all (\<lambda>(e, r). P3OUT r AND NOT BIT4 = P3OUT sa AND NOT BIT4) (emitted sa sb)
      \<and> P3OUT sb AND NOT BIT4 = P3OUT sa AND NOT BIT4
      \<and> P3OUT sc AND NOT BIT4 = 0
      \<and> list_all (\<lambda>(e, r). P3OUT r AND NOT BIT4 = P3OUT sc AND NOT BIT4) (emitted sc sd)
      \<and> P3OUT sd AND NOT BIT4 = P3OUT sc AND NOT BIT4
      \<and> (P3OUT x AND NOT BIT4 = 0 \<longrightarrow>
            list_all (\<lambda>(e, r). P3OUT r AND NOT BIT4 = P3OUT x AND NOT BIT4)
              (emitted x (snd (oled_write control data x)))
            \<and> P3OUT (snd (oled_write control data x)) AND NOT BIT4 = P3OUT x AND NOT BIT4)
      \<and> (acked x (nread x) \<and> acked x (nread x + 1) \<longrightarrow>
            fst (oled_write control data x) = of_bool (acked x (nread x + 2))
            \<and> (P3OUT (snd (oled_write control data x)) AND BIT4 \<noteq> 0) = acked x (nread x + 2))"
proof -
  define s where "s = main_setup h s0"
  define sa where "sa = delay_s 8 (oled_reset_pulse (delay_ms 200 s))"
  define sb where "sb = snd (oled_cmd 0xAF sa)"
  define sc where "sc = delay_ms 150 sb"
  define sd where "sd = snd (oled_cmd 0xA5 sc)"
  have sa: "sa = wait 40000 (oled_reset_pulse (wait 1000 s))" and sc: "sc = wait 750 sb"
    by (simp_all add: sa_def sc_def delay_ms_eq delay_s_eq)
  have m: "main h fuel s0 = (None, sd)"
    by (simp add: main_eq main_bringup_eq s_def sa sb_def sc sd_def)
  have pa: "P3OUT sa AND NOT BIT4 = 0"
    by (simp add: sa s_def P3OUT_wait P3OUT_oled_reset_pulse P3OUT_main_setup)
  have ea: "list_all (\<lambda>(e, r). P3OUT r AND NOT BIT4 = P3OUT sa AND NOT BIT4) (emitted sa sb)"
    and pb: "P3OUT sb AND NOT BIT4 = P3OUT sa AND NOT BIT4"
    unfolding sb_def oled_cmd_def by (rule other_bits_oled_write [OF pa])+
  have pc: "P3OUT sc AND NOT BIT4 = 0"
    by (simp add: sc P3OUT_wait pb pa)
  have ec: "list_all (\<lambda>(e, r). P3OUT r AND NOT BIT4 = P3OUT sc AND NOT BIT4) (emitted sc sd)"
    and pd: "P3OUT sd AND NOT BIT4 = P3OUT sc AND NOT BIT4"
    unfolding sd_def oled_cmd_def by (rule other_bits_oled_write [OF pc])+
  have g: "P3OUT x AND NOT BIT4 = 0 \<longrightarrow>
      list_all (\<lambda>(e, r). P3OUT r AND NOT BIT4 = P3OUT x AND NOT BIT4)
        (emitted x (snd (oled_write control data x)))
      \<and> P3OUT (snd (oled_write control data x)) AND NOT BIT4 = P3OUT x AND NOT BIT4"
    using other_bits_oled_write [of x control data] by blast
  have l: "acked x (nread x) \<and> acked x (nread x + 1) \<longrightarrow>
      fst (oled_write control data x) = of_bool (acked x (nread x + 2))
      \<and> (P3OUT (snd (oled_write control data x)) AND BIT4 \<noteq> 0) = acked x (nread x + 2)"
    using led_bit_oled_write [of x control data] by (simp add: fst_oled_write)
  show ?thesis
    unfolding Let_def s_def [symmetric] sa_def [symmetric] sb_def [symmetric] sc_def [symmetric]
      sd_def [symmetric]
    by (intro conjI m pa ea pb pc ec pd g l)
qed

theorem led_follows_payload_ack_witness:
  "P3OUT idle_state AND NOT BIT4 = 0
   \<and> acked idle_state (nread idle_state) \<and> acked idle_state (nread idle_state + 1)
   \<and> acked idle_state (nread idle_state + 2)
   \<and> P3OUT (snd (oled_write 0x00 0xAF idle_state)) AND BIT4 \<noteq> 0
   \<and> P3OUT (snd (oled_write 0x00 0xAF idle_state)) AND NOT BIT4 = 0"
proof -
  have p: "P3OUT idle_state AND NOT BIT4 = 0"
    by (simp add: idle_state_def)
  have a: "acked idle_state k" for k
    by (simp add: idle_state_def acked_def)
  have "(P3OUT (snd (oled_write 0x00 0xAF idle_state)) AND BIT4 \<noteq> 0)
      = acked idle_state (nread idle_state + 2)"
    and "P3OUT (snd (oled_write 0x00 0xAF idle_state)) AND NOT BIT4 = P3OUT idle_state AND NOT BIT4"
    using led_follows_payload_ack [of example_header idle_state 0 idle_state "0x00" "0xAF"] p a
    unfolding Let_def by blast+
  with p a show ?thesis
    by simp
qed

subsection \<open>START and STOP on the wire\<close>

text \<open>
  C4.  In \<open>i2c_start\<close>, entered with both lines released, the edges on the two lines are, in
  this order: SDA falls (SCL is still high), then SCL falls.  In \<open>i2c_stop\<close>, entered with
  SCL held low, they are: SDA falls (if it was high), then SCL rises, then SDA rises.
  Successive edges are separated by a wait of \<open>__delay_cycles(100)\<close>.  The register stores
  and delays of the two functions are the same in every execution.
\<close>

theorem i2c_start_stop_edge_order:
  "(bus_released s \<longrightarrow>
      edges (level OLED_SCL_BIT s) (level OLED_SDA_BIT s) (bus s (i2c_start s))
        = [Wait 100, SDA_falls, Wait 100, SCL_falls, Wait 100])
   \<and> (driven_low OLED_SCL_BIT s \<longrightarrow>
      edges (level OLED_SCL_BIT s) (level OLED_SDA_BIT s) (bus s (i2c_stop s))
        = (if level OLED_SDA_BIT s then [SDA_falls] else [])
          @ [Wait 100, SCL_rises, Wait 100, SDA_rises, Wait 100])
   \<and> map fst (emitted s (i2c_start s)) =
       [Write R_P2DIR, Write R_P2DIR, Delay_cycles 100, Write R_P2OUT, Write R_P2DIR,
        Delay_cycles 100, Write R_P2OUT, Write R_P2DIR, Delay_cycles 100]
   \<and> map fst (emitted s (i2c_stop s)) =
       [Write R_P2OUT, Write R_P2DIR, Delay_cycles 100, Write R_P2DIR, Delay_cycles 100,
        Write R_P2DIR, Delay_cycles 100]"
proof -
  have "bus_released s \<Longrightarrow> level OLED_SCL_BIT s \<and> level OLED_SDA_BIT s"
    by (simp add: obs_defs)
  moreover have "driven_low OLED_SCL_BIT s \<Longrightarrow> \<not> level OLED_SCL_BIT s"
    by (simp add: obs_defs)
  ultimately show ?thesis
    using edges_i2c_start [of s] edges_i2c_stop [of s]
    by (simp add: actions_i2c_start actions_i2c_stop)
qed

theorem i2c_start_stop_edge_order_witness:
  "bus_released idle_state
   \<and> edges True True (bus idle_state (i2c_start idle_state))
       = [Wait 100, SDA_falls, Wait 100, SCL_falls, Wait 100]
   \<and> driven_low OLED_SCL_BIT (idle_state\<lparr>P2DIR := 0x02\<rparr>)
   \<and> edges False True (bus (idle_state\<lparr>P2DIR := 0x02\<rparr>) (i2c_stop (idle_state\<lparr>P2DIR := 0x02\<rparr>)))
       = [SDA_falls, Wait 100, SCL_rises, Wait 100, SDA_rises, Wait 100]"
proof -
  have 1: "bus_released idle_state" "level OLED_SCL_BIT idle_state" "level OLED_SDA_BIT idle_state"
    by (simp_all add: idle_state_def obs_defs)
  have 2: "driven_low OLED_SCL_BIT (idle_state\<lparr>P2DIR := 0x02\<rparr>)"
    "\<not> level OLED_SCL_BIT (idle_state\<lparr>P2DIR := 0x02\<rparr>)"
    "level OLED_SDA_BIT (idle_state\<lparr>P2DIR := 0x02\<rparr>)"
    by (simp_all add: idle_state_def obs_defs pin_defs BIT1_def BIT2_def)
  from 1 2 show ?thesis
    using i2c_start_stop_edge_order [of idle_state]
      i2c_start_stop_edge_order [of "idle_state\<lparr>P2DIR := 0x02\<rparr>"]
    by simp
qed

subsection \<open>The bring-up sequence\<close>

text \<open>
  C2.  With \<open>USE_CHARGE_PUMP = 0\<close>, what \<open>main\<close> does after the reset pulse is: \<open>delay_s(8)\<close>,
  that is 40000 blocks of 1000 delay cycles; the command 0xAF; \<open>delay_ms(150)\<close>, that is 750
  blocks of 1000 delay cycles; the command 0xA5; and then the final loop, in which the
  machine state, and with it the trace, never changes again and from which \<open>main\<close> does not
  return, whatever the number of iterations.  What a protocol decoder reads from the two
  lines after the reset pulse is exactly the transfer of 0xAF followed by the transfer of
  0xA5, each cut short where the slave does not acknowledge; in particular no byte 0x8D and
  no byte 0x14 is sent.

  The time the model counts is that of \<open>__delay_cycles\<close>; the instructions around it are not
  counted.  At the 5330 cycles per millisecond of the selected clock, the first wait is
  40000000 cycles, 7504 whole milliseconds, and the second is 750000 cycles, 140 whole
  milliseconds: the delay helpers take a millisecond as 5000 cycles.  So the wait after the
  command 0xAF is not the 150 ms of the specification: the first of the two theorems shows
  it short of \<open>150 * 5330\<close> cycles on a concrete run, the second is the sequence as the source
  has it.
\<close>

theorem wait_after_display_on_counterexample:
  "\<not> 150 * DCO_CYCLES_PER_MS
      \<le> cycles (emitted
            (snd (oled_cmd 0xAF (delay_s 8 (oled_reset_pulse (delay_ms 200
               (main_setup example_header idle_state))))))
            (delay_ms 150
              (snd (oled_cmd 0xAF (delay_s 8 (oled_reset_pulse (delay_ms 200
                 (main_setup example_header idle_state))))))))"
  by (simp add: delay_ms_eq [of 150] emitted_wait cycles_replicate DCO_CYCLES_PER_MS_def)

text \<open>
  C2, as the source has it: the sequence after the reset pulse, with the two waits in delay
  cycles and in whole milliseconds of the selected clock.
\<close>

theorem main_bringup_sequence:
  "let s = main_setup h s0;
       sr = oled_reset_pulse (delay_ms 200 s);
       sa = delay_s 8 sr;
       sb = snd (oled_cmd 0xAF sa);
       sc = delay_ms 150 sb;
       sd = snd (oled_cmd 0xA5 sc)
   in main h fuel s0 = (None, sd)
      \<and> emitted sr sd = emitted sr sa @ emitted sa sb @ emitted sb sc @ emitted sc sd
      \<and> emitted sr sa = replicate 40000 (Delay_cycles 1000, snapshot sr)
      \<and> cycles (emitted sr sa) = 40000000
      \<and> cycles (emitted sr sa) div DCO_CYCLES_PER_MS = 7504
      \<and> emitted sb sc = replicate 750 (Delay_cycles 1000, snapshot sb)
      \<and> cycles (emitted sb sc) = 750000
      \<and> cycles (emitted sb sc) div DCO_CYCLES_PER_MS = 140
      \<and> out (decode idle_decoder (bus sr sd))
          = transfer 0x00 0xAF (acked sa (nread sa)) (acked sa (nread sa + 1)) (acked sa (nread sa + 2))
            @ transfer 0x00 0xA5 (acked sc (nread sc)) (acked sc (nread sc + 1)) (acked sc (nread sc + 2))
      \<and> list_all (\<lambda>x. x \<notin> {BYTE 0x8D True, BYTE 0x8D False, BYTE 0x14 True, BYTE 0x14 False})
            (out (decode idle_decoder (bus sr sd)))"
proof -
  define s where "s = main_setup h s0"
  define sr where "sr = oled_reset_pulse (delay_ms 200 s)"
  define sa where "sa = delay_s 8 sr"
  define sb where "sb = snd (oled_cmd 0xAF sa)"
  define sc where "sc = delay_ms 150 sb"
  define sd where "sd = snd (oled_cmd 0xA5 sc)"
  have sr: "sr = oled_reset_pulse (wait 1000 s)" and sa: "sa = wait 40000 sr"
    and sc: "sc = wait 750 sb"
    by (simp_all add: sr_def sa_def sc_def delay_ms_eq delay_s_eq)
  have m: "main h fuel s0 = (None, sd)"
    by (simp add: main_eq main_bringup_eq s_def sr sa sb_def sc sd_def)
  have r: "bus_released sr"
    by (simp add: sr s_def bus_released_oled_reset_pulse bus_released_wait bus_released_main_setup)
  have ea: "extends sr sa"
    unfolding sa by (rule keeps_extends [OF keeps_wait_oled])
  have eb: "extends sa sb"
    unfolding sb_def by (rule keeps_extends [OF keeps_oled_cmd])
  have ec: "extends sb sc"
    unfolding sc by (rule keeps_extends [OF keeps_wait_oled])
  have ed: "extends sc sd"
    unfolding sd_def by (rule keeps_extends [OF keeps_oled_cmd])
  have e: "emitted sr sd = emitted sr sa @ emitted sa sb @ emitted sb sc @ emitted sc sd"
    by (simp add: emitted_trans [OF ea extends_trans [OF eb extends_trans [OF ec ed]]]
        emitted_trans [OF eb extends_trans [OF ec ed]] emitted_trans [OF ec ed])
  have wa: "emitted sr sa = replicate 40000 (Delay_cycles 1000, snapshot sr)"
    and wc: "emitted sb sc = replicate 750 (Delay_cycles 1000, snapshot sb)"
    by (simp_all add: sa sc emitted_wait)
  have ca: "cycles (emitted sr sa) = 40000000" and cc: "cycles (emitted sb sc) = 750000"
    by (simp_all add: wa wc cycles_replicate)
  have ma: "cycles (emitted sr sa) div DCO_CYCLES_PER_MS = 7504"
    and mc: "cycles (emitted sb sc) div DCO_CYCLES_PER_MS = 140"
    by (simp_all add: ca cc DCO_CYCLES_PER_MS_def)
  have d: "out (decode idle_decoder (bus sr sd))
      = transfer 0x00 0xAF (acked sa (nread sa)) (acked sa (nread sa + 1)) (acked sa (nread sa + 2))
        @ transfer 0x00 0xA5 (acked sc (nread sc)) (acked sc (nread sc + 1)) (acked sc (nread sc + 2))"
    using decode_two_commands [OF r, where j = 40000 and ?c1.0 = "0xAF" and k = 750 and ?c2.0 = "0xA5"]
    by (simp add: sd_def sc sb_def sa)
  have n: "list_all (\<lambda>x. x \<notin> {BYTE 0x8D True, BYTE 0x8D False, BYTE 0x14 True, BYTE 0x14 False})
      (out (decode idle_decoder (bus sr sd)))"
    unfolding d
    using no_charge_pump_in_transfer [of "0xAF"] no_charge_pump_in_transfer [of "0xA5"]
    by simp
  show ?thesis
    unfolding Let_def s_def [symmetric] sr_def [symmetric] sa_def [symmetric] sb_def [symmetric]
      sc_def [symmetric] sd_def [symmetric]
    by (intro conjI m e wa ca ma wc cc mc d n)
qed

subsection \<open>The reset line\<close>

text \<open>
  C6.  The stores to \<open>P2OUT\<close> in \<open>SCL_low\<close> and \<open>SDA_low\<close> are read-modify-writes that clear one
  bit, and no store of these helpers, nor of a whole transfer, changes the RES bit of
  \<open>P2OUT\<close>.  Once \<open>main\<close> has initialised the GPIO, RES is driven high; it stays so in every
  register file of the trace from there on, except in the first half of \<open>oled_reset_pulse\<close>:
  the store that pulls RES low and the 250 blocks of 1000 delay cycles (50 ms at 5000 cycles
  per millisecond) that follow it, where RES is driven low.
\<close>

theorem RES_high_except_reset_pulse:
  "let s = main_setup h s0;
       sa = delay_ms 200 s;
       sr = oled_reset_pulse sa;
       sd = main_bringup s;
       lo = (snapshot sa)\<lparr>P2OUT := P2OUT sa AND NOT OLED_RES_BIT\<rparr>;
       hi = (snapshot sa)\<lparr>P2OUT := P2OUT sa AND NOT OLED_RES_BIT OR OLED_RES_BIT\<rparr>
   in P2OUT (SCL_low x) = P2OUT x AND NOT OLED_SCL_BIT
      \<and> P2OUT (SDA_low x) = P2OUT x AND NOT OLED_SDA_BIT
      \<and> list_all (\<lambda>(e, r). P2OUT r AND OLED_RES_BIT = P2OUT x AND OLED_RES_BIT)
            (emitted x (SCL_low x))
      \<and> list_all (\<lambda>(e, r). P2OUT r AND OLED_RES_BIT = P2OUT x AND OLED_RES_BIT)
            (emitted x (SDA_low x))
      \<and> list_all (\<lambda>(e, r). P2OUT r AND OLED_RES_BIT = P2OUT x AND OLED_RES_BIT)
            (emitted x (snd (oled_write control data x)))
      \<and> driven_high OLED_RES_BIT s
      \<and> main h fuel s0 = (None, sd)
      \<and> emitted s sd = emitted s sa @ emitted sa sr @ emitted sr sd
      \<and> list_all (\<lambda>(e, r). driven_high OLED_RES_BIT r) (emitted s sa)
      \<and> emitted sa sr = ((Write R_P2OUT, lo) # replicate 250 (Delay_cycles 1000, lo))
                        @ ((Write R_P2OUT, hi) # replicate 250 (Delay_cycles 1000, hi))
      \<and> driven_low OLED_RES_BIT lo
      \<and> driven_high OLED_RES_BIT hi
      \<and> cycles ((Write R_P2OUT, lo) # replicate 250 (Delay_cycles 1000, lo)) = 50 * 5000
      \<and> list_all (\<lambda>(e, r). driven_high OLED_RES_BIT r) (emitted sr sd)"
proof -
  define s where "s = main_setup h s0"
  define sa where "sa = delay_ms 200 s"
  define sr where "sr = oled_reset_pulse sa"
  define sd where "sd = main_bringup s"
  define lo where "lo = (snapshot sa)\<lparr>P2OUT := P2OUT sa AND NOT OLED_RES_BIT\<rparr>"
  define hi where "hi = (snapshot sa)\<lparr>P2OUT := P2OUT sa AND NOT OLED_RES_BIT OR OLED_RES_BIT\<rparr>"
  have sa: "sa = wait 1000 s"
    by (simp add: sa_def delay_ms_eq)
  have sd: "sd = snd (oled_cmd 0xA5 (wait 750 (snd (oled_cmd 0xAF (wait 40000 sr)))))"
    by (simp add: sd_def main_bringup_eq sr_def sa)
  have 1: "list_all (\<lambda>(e, r). P2OUT r AND OLED_RES_BIT = P2OUT x AND OLED_RES_BIT) (emitted x (SCL_low x))"
    by (rule keeps_oled_RES_bit_entries [OF keeps_bus_oled [OF keeps_SCL_low]])
  have 2: "list_all (\<lambda>(e, r). P2OUT r AND OLED_RES_BIT = P2OUT x AND OLED_RES_BIT) (emitted x (SDA_low x))"
    by (rule keeps_oled_RES_bit_entries [OF keeps_bus_oled [OF keeps_SDA_low]])
  have 3: "list_all (\<lambda>(e, r). P2OUT r AND OLED_RES_BIT = P2OUT x AND OLED_RES_BIT)
      (emitted x (snd (oled_write control data x)))"
    by (rule keeps_oled_RES_bit_entries [OF keeps_oled_write])
  have hs: "driven_high OLED_RES_BIT s"
    by (simp add: s_def RES_main_setup)
  then have hsa: "driven_high OLED_RES_BIT sa"
    by (simp add: sa RES_wait)
  then have hsr: "driven_high OLED_RES_BIT sr"
    by (simp add: sr_def RES_oled_reset_pulse)
  have m: "main h fuel s0 = (None, sd)"
    by (simp add: main_eq sd_def s_def)
  have ea: "extends s sa"
    unfolding sa by (rule keeps_extends [OF keeps_wait_oled])
  have er: "extends sa sr"
    unfolding sr_def by (rule keeps_extends [OF keeps_oled_reset_pulse])
  have ed: "extends sr sd"
    unfolding sd by (rule keeps_extends [OF keeps_after_reset])
  have e: "emitted s sd = emitted s sa @ emitted sa sr @ emitted sr sd"
    by (simp add: emitted_trans [OF ea extends_trans [OF er ed]] emitted_trans [OF er ed])
  have a: "list_all (\<lambda>(e, r). driven_high OLED_RES_BIT r) (emitted s sa)"
    unfolding sa by (rule keeps_oled_RES_entries [OF keeps_wait_oled hs])
  have p: "emitted sa sr = ((Write R_P2OUT, lo) # replicate 250 (Delay_cycles 1000, lo))
      @ ((Write R_P2OUT, hi) # replicate 250 (Delay_cycles 1000, hi))"
    by (simp add: sr_def lo_def hi_def emitted_oled_reset_pulse)
  have l: "driven_low OLED_RES_BIT lo" and u: "driven_high OLED_RES_BIT hi"
    using hsa by (simp_all add: lo_def hi_def driven_low_def driven_high_def snapshot_def pin_defs bit_BIT)
  have c: "cycles ((Write R_P2OUT, lo) # replicate 250 (Delay_cycles 1000, lo)) = 50 * 5000"
    by (simp add: cycles_replicate)
  have d: "list_all (\<lambda>(e, r). driven_high OLED_RES_BIT r) (emitted sr sd)"
    unfolding sd by (rule keeps_oled_RES_entries [OF keeps_after_reset hsr])
  show ?thesis
    unfolding Let_def s_def [symmetric] sa_def [symmetric] sr_def [symmetric] sd_def [symmetric]
      lo_def [symmetric] hi_def [symmetric]
    by (intro conjI P2OUT_line_low 1 2 3 hs m e a p l u c d)
qed

subsection \<open>Open-drain lines\<close>

text \<open>
  C7.  With \<open>USE_INTERNAL_PULLUPS = 0\<close> the firmware never drives SCL or SDA high.  If at
  the entry of an operation neither line has its direction bit set while its output bit
  is 1, then this remains so in every register file of the trace of the operation: of each
  line helper, of each I2C and display primitive, and of \<open>main\<close> as a whole, for any number
  of iterations of its final loop.  \<open>oled_gpio_init\<close> establishes this state whatever the
  state before.
\<close>

theorem lines_never_driven_high:
  "(open_drain s \<longrightarrow>
      list_all (\<lambda>(e, r). open_drain r) (emitted s (SCL_low s))
      \<and> list_all (\<lambda>(e, r). open_drain r) (emitted s (SCL_release s))
      \<and> list_all (\<lambda>(e, r). open_drain r) (emitted s (SDA_low s))
      \<and> list_all (\<lambda>(e, r). open_drain r) (emitted s (SDA_release s))
      \<and> list_all (\<lambda>(e, r). open_drain r) (emitted s (i2c_idle s))
      \<and> list_all (\<lambda>(e, r). open_drain r) (emitted s (i2c_start s))
      \<and> list_all (\<lambda>(e, r). open_drain r) (emitted s (i2c_stop s))
      \<and> list_all (\<lambda>(e, r). open_drain r) (emitted s (i2c_write_bit v s))
      \<and> list_all (\<lambda>(e, r). open_drain r) (emitted s (snd (i2c_read_ack s)))
      \<and> list_all (\<lambda>(e, r). open_drain r) (emitted s (snd (i2c_write_byte b s)))
      \<and> list_all (\<lambda>(e, r). open_drain r) (emitted s (snd (oled_write control data s)))
      \<and> list_all (\<lambda>(e, r). open_drain r) (emitted s (snd (oled_cmd c s)))
      \<and> list_all (\<lambda>(e, r). open_drain r) (emitted s (oled_gpio_init h s))
      \<and> list_all (\<lambda>(e, r). open_drain r) (emitted s (oled_reset_pulse s))
      \<and> list_all (\<lambda>(e, r). open_drain r) (emitted s (oled_init_minimal s))
      \<and> list_all (\<lambda>(e, r). open_drain r) (emitted s (snd (main h fuel s))))
   \<and> open_drain (oled_gpio_init h s)
   \<and> open_drain (main_setup h s)"
proof -
  have "open_drain s \<Longrightarrow> list_all (\<lambda>(e, r). open_drain r) (emitted s s')"
    if "keeps any_event od_step s s'" for s'
    using that by (rule keeps_od_entries)
  note k = this
  show ?thesis
    by (intro conjI impI pins_oled_gpio_init open_drain_main_setup)
       (erule k [OF keeps_bus_od [OF keeps_SCL_low]],
        erule k [OF keeps_bus_od [OF keeps_SCL_release]],
        erule k [OF keeps_bus_od [OF keeps_SDA_low]],
        erule k [OF keeps_bus_od [OF keeps_SDA_release]],
        erule k [OF keeps_bus_od [OF keeps_i2c_idle]],
        erule k [OF keeps_bus_od [OF keeps_i2c_start]],
        erule k [OF keeps_bus_od [OF keeps_i2c_stop]],
        erule k [OF keeps_bus_od [OF keeps_i2c_write_bit]],
        erule k [OF keeps_bus_od [OF keeps_i2c_read_ack]],
        erule k [OF keeps_bus_od [OF keeps_i2c_write_byte]],
        erule k [OF keeps_oled_od [OF keeps_oled_write]],
        erule k [OF keeps_oled_od [OF keeps_oled_cmd]],
        erule k [OF keeps_oled_gpio_init],
        erule k [OF keeps_dir_od [OF keeps_oled_reset_pulse]],
        erule k [OF keeps_oled_od [OF keeps_oled_init_minimal]],
        erule k [OF keeps_main])
qed

theorem lines_never_driven_high_witness:
  "open_drain idle_state
   \<and> list_all (\<lambda>(e, r). open_drain r) (emitted idle_state (snd (main example_header 3 idle_state)))"
proof -
  have "open_drain idle_state"
    by (simp add: idle_state_def open_drain_def driven_high_def)
  then show ?thesis
    using lines_never_driven_high [of idle_state] by blast
qed

subsection \<open>The bus between transfers\<close>

text \<open>
  C8.  Both lines are inputs when \<open>oled_gpio_init\<close> returns and when \<open>oled_write\<close> returns, on
  every path.  In \<open>main\<close> they are inputs in every register file of the trace between the
  end of the GPIO initialisation and the call of the first command, between the return of the
  first command and the call of the second, and after the second; and in \<open>i2c_start\<close>,
  entered with both lines released, up to the store that pulls SDA low.
\<close>

theorem bus_released_between_transfers:
  "let s = main_setup h s0;
       sa = delay_s 8 (oled_reset_pulse (delay_ms 200 s));
       sb = snd (oled_cmd 0xAF sa);
       sc = delay_ms 150 sb;
       sd = snd (oled_cmd 0xA5 sc)
   in bus_released (oled_gpio_init h x)
      \<and> bus_released (snd (oled_write control data x))
      \<and> (bus_released x \<longrightarrow>
            list_all (\<lambda>(e, r). bus_released r) (take 4 (emitted x (i2c_start x))))
      \<and> main h fuel s0 = (None, sd)
      \<and> bus_released s
      \<and> list_all (\<lambda>(e, r). bus_released r) (emitted s sa)
      \<and> bus_released sb
      \<and> list_all (\<lambda>(e, r). bus_released r) (emitted sb sc)
      \<and> bus_released sd"
proof -
  define s where "s = main_setup h s0"
  define sa where "sa = delay_s 8 (oled_reset_pulse (delay_ms 200 s))"
  define sb where "sb = snd (oled_cmd 0xAF sa)"
  define sc where "sc = delay_ms 150 sb"
  define sd where "sd = snd (oled_cmd 0xA5 sc)"
  have sa: "sa = wait 40000 (oled_reset_pulse (wait 1000 s))" and sc: "sc = wait 750 sb"
    by (simp_all add: sa_def sc_def delay_ms_eq delay_s_eq)
  have m: "main h fuel s0 = (None, sd)"
    by (simp add: main_eq main_bringup_eq s_def sa sb_def sc sd_def)
  have rs: "bus_released s"
    by (simp add: s_def bus_released_main_setup)
  have "keeps any_event dir_step s sa"
    unfolding sa
    by (intro keeps_dir_trans [OF _ keeps_wait_dir] keeps_dir_trans [OF _ keeps_oled_reset_pulse]
        keeps_wait_dir)
  then have a: "list_all (\<lambda>(e, r). bus_released r) (emitted s sa)"
    using rs by (rule keeps_dir_entries)
  have rb: "bus_released sb" and rd: "bus_released sd"
    by (simp_all add: sb_def sd_def bus_released_oled_cmd)
  have c: "list_all (\<lambda>(e, r). bus_released r) (emitted sb sc)"
    unfolding sc by (rule keeps_dir_entries [OF keeps_wait_dir rb])
  have u: "bus_released x \<longrightarrow>
      list_all (\<lambda>(e, r). bus_released r) (take 4 (emitted x (i2c_start x)))"
    by (simp add: released_until_start)
  show ?thesis
    unfolding Let_def s_def [symmetric] sa_def [symmetric] sb_def [symmetric] sc_def [symmetric]
      sd_def [symmetric]
    by (intro conjI pins_oled_gpio_init bus_released_oled_write u m rs a rb c rd)
qed

theorem bus_released_between_transfers_witness:
  "bus_released idle_state
   \<and> list_all (\<lambda>(e, r). bus_released r) (take 4 (emitted idle_state (i2c_start idle_state)))"
proof -
  have "bus_released idle_state"
    by (simp add: idle_state_def bus_released_def released_def)
  then show ?thesis
    using bus_released_between_transfers [of example_header idle_state idle_state]
    unfolding Let_def by blast
qed

subsection \<open>Termination\<close>

text \<open>
  C10.  Everything but the final loop of \<open>main\<close> terminates.  The three delay loops, which
  count a \<open>uint16_t\<close> down to 0, are total: \<open>delay_cycles_const n\<close> waits exactly \<open>n\<close> blocks,
  \<open>delay_ms n\<close> exactly \<open>5 * n\<close> and \<open>delay_s n\<close> exactly \<open>5000 * n\<close>, and none for \<open>n = 0\<close>.  The bit loop
  of \<open>i2c_write_byte\<close> runs exactly 8 times.  Every I2C and display primitive adds a bounded
  number of events to the trace, and so does \<open>main\<close> up to its final loop, from which it
  does not return.
\<close>

theorem firmware_terminates:
  "delay_cycles_const n s = s\<lparr>trace := trace s @ replicate (unat n) (Delay_cycles 1000, snapshot s)\<rparr>
   \<and> delay_ms n s = s\<lparr>trace := trace s @ replicate (5 * unat n) (Delay_cycles 1000, snapshot s)\<rparr>
   \<and> delay_s n s = s\<lparr>trace := trace s @ replicate (5000 * unat n) (Delay_cycles 1000, snapshot s)\<rparr>
   \<and> delay_cycles_const 0 s = s \<and> delay_ms 0 s = s \<and> delay_s 0 s = s
   \<and> i2c_write_byte_loop 0 b s =
       foldl (\<lambda>s k. i2c_write_bit (of_bool (bit b k)) s) s [7, 6, 5, 4, 3, 2, 1, 0]
   \<and> length (emitted s (i2c_idle s)) = 3
   \<and> length (emitted s (i2c_start s)) = 9
   \<and> length (emitted s (i2c_stop s)) = 7
   \<and> length (emitted s (i2c_write_bit v s)) \<le> 8
   \<and> length (emitted s (snd (i2c_read_ack s))) = 8
   \<and> length (emitted s (snd (i2c_write_byte b s))) \<le> 72
   \<and> length (emitted s (snd (oled_write control data s))) \<le> 233
   \<and> length (emitted s (snd (oled_cmd c s))) \<le> 233
   \<and> length (emitted s (oled_gpio_init h s)) \<le> 8
   \<and> length (emitted s (oled_reset_pulse s)) = 502
   \<and> length (emitted s (oled_init_minimal s)) \<le> 40983
   \<and> length (emitted s (main_setup h s)) \<le> 16
   \<and> length (emitted s (main_bringup s)) \<le> 42718
   \<and> main h fuel s = (None, main_bringup (main_setup h s))"
proof -
  have "length (emitted s (snd (oled_cmd c s))) \<le> 233"
    by (simp add: oled_cmd_def length_oled_write)
  moreover have "length (emitted s (i2c_write_bit v s)) \<le> 8"
    by (simp add: length_i2c)
  ultimately show ?thesis
    by (simp add: delay_cycles_const_eq delay_ms_eq delay_s_eq wait_def loop_unroll write_bits_def
        length_i2c length_i2c_write_byte length_oled_write length_oled_gpio_init
        length_oled_reset_pulse length_oled_init_minimal length_main_setup length_main_bringup
        main_eq)
qed

end
